theory Spec2Isabelle
  imports Main
begin

section \<open>Python string primitives used by the agent\<close>

text \<open>
  Python strings are sequences of code points; they are modelled as \<open>string\<close>, one
  \<open>char\<close> per code point, which covers the code points below 256. Nothing below
  depends on the characters above that range.
\<close>

definition strip_chars :: "char list \<Rightarrow> string \<Rightarrow> string" where
  \<comment> \<open>\<open>s.strip(chars)\<close>: drop leading and trailing characters that occur in \<open>chars\<close>.\<close>
  "strip_chars chars s =
     rev (dropWhile (\<lambda>c. c \<in> set chars) (rev (dropWhile (\<lambda>c. c \<in> set chars) s)))"

definition whitespace :: "char list" where
  \<comment> \<open>The code points below 256 for which Python's \<open>str.isspace\<close> holds:
      tab, line feed, vertical tab, form feed, carriage return, the four separators
      0x1C to 0x1F, space, next line (0x85) and no-break space (0xA0).\<close>
  "whitespace = [CHR 0x09, CHR 0x0A, CHR 0x0B, CHR 0x0C, CHR 0x0D,
                 CHR 0x1C, CHR 0x1D, CHR 0x1E, CHR 0x1F, CHR 0x20, CHR 0x85, CHR 0xA0]"

definition strip :: "string \<Rightarrow> string" where
  \<comment> \<open>\<open>s.strip()\<close>\<close>
  "strip s = strip_chars whitespace s"

fun split :: "char \<Rightarrow> string \<Rightarrow> string list" where
  \<comment> \<open>\<open>s.split(sep)\<close> for a separator of one character. The result is never the
      empty list, so the last case below does not occur.\<close>
  "split sep [] = [[]]"
| "split sep (c # cs) =
     (if c = sep then [] # split sep cs
      else (case split sep cs of
              w # ws \<Rightarrow> (c # w) # ws
            | [] \<Rightarrow> [[c]]))"

definition strip_quotes :: "string \<Rightarrow> string" where
  \<comment> \<open>\<open>s.strip('"').strip("'")\<close>, lines 152 and 166.\<close>
  "strip_quotes s = strip_chars [CHR 0x27] (strip_chars [CHR 0x22] s)"

section \<open>Query classification\<close>

datatype error =
    ValueError      \<comment> \<open>raised by \<open>dict(...)\<close> on an element that is not a pair\<close>
  | IndexError      \<comment> \<open>\<open>chat_messages[-1]\<close> on an empty list\<close>
  | RequestError string  \<comment> \<open>a failure raised by an external collaborator\<close>

record QueryTags =
  needs_search :: bool
  needs_image :: bool
  needs_video :: bool
  content_violation :: bool
  has_math :: bool

fun dict :: "string list list \<Rightarrow> (string \<rightharpoonup> string) \<Rightarrow> error + (string \<rightharpoonup> string)" where
  \<comment> \<open>\<open>dict(iterable)\<close>: every element must have exactly two items; a later key
      overwrites an earlier one. The second argument is the dictionary built so far.\<close>
  "dict [] m = Inr m"
| "dict (kv # rest) m =
     (case kv of
        [k, v] \<Rightarrow> dict rest (m(k \<mapsto> v))
      | _ \<Rightarrow> Inl ValueError)"

definition get :: "(string \<rightharpoonup> string) \<Rightarrow> string \<Rightarrow> string \<Rightarrow> string" where
  \<comment> \<open>\<open>d.get(key, default)\<close>\<close>
  "get d k dflt = (case d k of None \<Rightarrow> dflt | Some v \<Rightarrow> v)"

definition tag_items :: "string \<Rightarrow> string list list" where
  \<comment> \<open>\<open>tag.strip().split(":") for tag in classify_response.split(",")\<close>, line 155,
      on the response already stripped of quotes.\<close>
  "tag_items classify_response =
     map (\<lambda>tag. split CHR '':'' (strip tag)) (split CHR '','' classify_response)"

definition tags_dict :: "string \<Rightarrow> error + (string \<rightharpoonup> string)" where
  "tags_dict content = dict (tag_items (strip_quotes content)) Map.empty"

definition query_tags :: "(string \<rightharpoonup> string) \<Rightarrow> QueryTags" where
  \<comment> \<open>Lines 156 to 162.\<close>
  "query_tags d =
     \<lparr> needs_search = (strip (get d ''SEARCH_NEEDED'' ''YES'') = ''YES''),
       needs_image = (strip (get d ''SEARCH_IMAGE'' ''YES'') = ''YES''),
       needs_video = (strip (get d ''SEARCH_VIDEO'' ''YES'') = ''YES''),
       content_violation = (strip (get d ''CONTENT_VIOLATION'' ''NO'') = ''YES''),
       has_math = (strip (get d ''MATH'' ''NO'') = ''YES'') \<rparr>"

definition parse_tags :: "string \<Rightarrow> error + QueryTags" where
  \<comment> \<open>Lines 150 to 162: from the content of the classification response to the tags.\<close>
  "parse_tags content =
     (case tags_dict content of
        Inl e \<Rightarrow> Inl e
      | Inr d \<Rightarrow> Inr (query_tags d))"

section \<open>Data exchanged with the collaborators\<close>

text \<open>
  The typed dictionaries of \<open>sensei_search.tools\<close>, \<open>sensei_search.base_agent\<close> and
  \<open>sensei_search.chat_store\<close> are records here. A search hit carries the three
  fields the agent reads and whatever else the search service returned
  (\<open>other_fields\<close>). The dictionaries the agent builds itself (the payloads of the
  events and the entries of the persisted record) are association lists of key and
  value, in the order the dictionary literal lists the keys.
\<close>

type_synonym py_dict = "(string \<times> string) list"

type_synonym message = "string \<times> string"  \<comment> \<open>role and content\<close>

record GeneralResult =
  url :: string
  title :: string
  content :: string
  other_fields :: py_dict

record ImageResult =
  image_url :: string  \<comment> \<open>key \<open>url\<close> of an image hit\<close>
  img_src :: string

record VideoResult =
  video_url :: string  \<comment> \<open>key \<open>url\<close> of a video hit\<close>

record TopResults =
  general :: "GeneralResult list"
  images :: "ImageResult list"
  videos :: "VideoResult list"

datatype Category = General | Images | Videos

record EnrichedQuery =
  search_query :: string
  tags :: "QueryTags option"

datatype MetaData = MetaData bool  \<comment> \<open>the dictionary with the one key \<open>has_math\<close>\<close>

record ChatHistory =
  id' :: string
  thread_id :: string
  mediums :: "py_dict list"
  web_results :: "py_dict list"
  query :: string
  answer :: string
  metadata :: MetaData

datatype event =
    Metadata MetaData
  | Web_results "py_dict list"
  | Medium_results "py_dict list"
  | Answer string

datatype effect =
    Emit event  \<comment> \<open>\<open>self.emitter.emit(type, {"data": payload})\<close>\<close>
  | Save string ChatHistory  \<comment> \<open>\<open>chat_store.save_chat_history(thread_id, chat_history)\<close>\<close>

text \<open>
  Everything outside the file is a field of the environment: the methods inherited from
  \<open>BaseAgent\<close>, the prompt templates (as their \<open>format\<close> functions), the two model
  endpoints, the search service, the HTTP client, the extractor, the clock, the
  identifier generator and the chat store. A streamed completion is the list of the
  \<open>delta.content\<close> values it yields (\<open>None\<close> when a chunk has none), and the error that
  ends the iteration if one does; the stream is asked for with the system prompt and
  the last message of the user, the third message of the request being a constant.
  \<open>trafilatura.extract\<close> returns a string or \<open>None\<close>. \<open>uuid4 e k\<close> is the identifier
  that the generator returns at its call number \<open>k\<close>, counting from 0; the number of
  calls made so far is the state of the generator, which \<open>run\<close> takes and returns.
  \<open>medium_slot\<close> is the choice of the event loop in the last \<open>gather\<close>: how many
  answer events reach the emitter before the medium-results event does.
\<close>

record env =
  load_chat_history :: "string \<Rightarrow> error + message list"
  chat_history_to_string :: "message list \<Rightarrow> string"
  search_prompt :: "string \<Rightarrow> string \<Rightarrow> string"
  classification_prompt :: "string \<Rightarrow> string \<Rightarrow> string"
  answer_prompt :: "string \<Rightarrow> string \<Rightarrow> string \<Rightarrow> string"
  rewrite_completion :: "string \<Rightarrow> error + string"
  classify_completion :: "string \<Rightarrow> error + string"
  searxng_search_results_json :: "string \<Rightarrow> Category list \<Rightarrow> error + TopResults"
  session_get_text :: "string \<Rightarrow> error + string"
  trafilatura_extract :: "string \<Rightarrow> string option"
  completion_stream :: "string \<Rightarrow> string \<Rightarrow> string option list \<times> error option"
  now_isoformat :: string
  uuid4 :: "nat \<Rightarrow> string"
  save_chat_history :: "string \<Rightarrow> ChatHistory \<Rightarrow> error option"
  medium_slot :: nat

section \<open>The emitters\<close>

definition emit_metadata :: "MetaData \<Rightarrow> effect" where
  "emit_metadata md = Emit (Metadata md)"

definition emit_web_results :: "GeneralResult list \<Rightarrow> effect" where
  "emit_web_results results =
     (let filtered_results =
            map (\<lambda>res. [(''url'', url res), (''title'', title res), (''content'', content res)])
              results
      in Emit (Web_results filtered_results))"

definition emit_medium_results :: "TopResults \<Rightarrow> effect" where
  "emit_medium_results results =
     (let filtered_results =
            map (\<lambda>image. [(''url'', image_url image), (''image'', img_src image),
                           (''medium'', ''image'')]) (images results)
            @ map (\<lambda>video. [(''url'', video_url video), (''medium'', ''video'')])
                (videos results)
      in Emit (Medium_results filtered_results))"

definition emit_answer :: "string \<Rightarrow> effect" where
  "emit_answer a = Emit (Answer a)"

section \<open>process_user_query\<close>

text \<open>
  The two completion requests run under one \<open>gather\<close>; when both fail the model
  reports the failure of the rewrite request.
\<close>

definition process_user_query :: "env \<Rightarrow> message list \<Rightarrow> error + EnrichedQuery" where
  "process_user_query e chat_messages =
     (if chat_messages = [] then Inl IndexError
      else
        let chat_history = chat_history_to_string e chat_messages;
            user_current_query = snd (last chat_messages);
            materialized_search_prompt = search_prompt e chat_history user_current_query;
            materialized_classify_prompt =
              classification_prompt e chat_history user_current_query
        in case rewrite_completion e materialized_search_prompt of
             Inl err \<Rightarrow> Inl err
           | Inr search_content \<Rightarrow>
               (case classify_completion e materialized_classify_prompt of
                  Inl err \<Rightarrow> Inl err
                | Inr classify_content \<Rightarrow>
                    (case parse_tags classify_content of
                       Inl err \<Rightarrow> Inl err
                     | Inr t \<Rightarrow>
                         Inr \<lparr> search_query = strip_quotes search_content,
                               tags = Some t \<rparr>)))"

section \<open>fetch_web_pages\<close>

definition fetch_page :: "env \<Rightarrow> string \<Rightarrow> string option" where
  \<comment> \<open>Lines 180 to 186: the exception is logged and the function returns \<open>None\<close>.\<close>
  "fetch_page e u = (case session_get_text e u of Inl err \<Rightarrow> None | Inr text \<Rightarrow> Some text)"

definition or_empty :: "string option \<Rightarrow> string" where
  \<comment> \<open>\<open>page or ""\<close>: \<open>None\<close> and the empty string both give the empty string.\<close>
  "or_empty page = (case page of None \<Rightarrow> '''' | Some text \<Rightarrow> text)"

definition fetch_web_pages :: "env \<Rightarrow> GeneralResult list \<Rightarrow> string option list" where
  \<comment> \<open>An entry is what \<open>trafilatura.extract\<close> returned: a string or \<open>None\<close>.\<close>
  "fetch_web_pages e results =
     (let html_web_pages = map (\<lambda>result. fetch_page e (url result)) results
      in map (\<lambda>page. trafilatura_extract e (or_empty page)) html_web_pages)"

section \<open>gen_answer\<close>

fun str :: "nat \<Rightarrow> string" where
  \<comment> \<open>the decimal digits of a natural number, as an f-string prints it\<close>
  "str n = (if n < 10 then [char_of (48 + n)] else str (n div 10) @ [char_of (48 + n mod 10)])"

declare str.simps [simp del]

definition format_page :: "string option \<Rightarrow> string" where
  \<comment> \<open>\<open>{page}\<close> in an f-string: a string as it is, \<open>None\<close> as the word \<open>None\<close>.\<close>
  "format_page page = (case page of None \<Rightarrow> ''None'' | Some text \<Rightarrow> text)"

fun documents :: "nat \<Rightarrow> string option list \<Rightarrow> string" where
  \<comment> \<open>Lines 203 to 205, from index \<open>i\<close> on.\<close>
  "documents i [] = ''''"
| "documents i (page # pages) =
     ''Document: '' @ str (i + 1) @ [CHR 0x0A] @ format_page page @ [CHR 0x0A, CHR 0x0A]
       @ documents (i + 1) pages"

fun stream_loop :: "string option list \<Rightarrow> string list \<times> effect list \<Rightarrow> string list \<times> effect list" where
  \<comment> \<open>Lines 245 to 249: the state is \<open>final_answer_parts\<close> and the events emitted so far.
      A chunk whose content is \<open>None\<close> or empty is falsy and is skipped.\<close>
  "stream_loop [] st = st"
| "stream_loop (chunk # rest) (final_answer_parts, emitted) =
     (case chunk of
        None \<Rightarrow> stream_loop rest (final_answer_parts, emitted)
      | Some text \<Rightarrow>
          if text \<noteq> ''''
          then stream_loop rest (final_answer_parts @ [text], emitted @ [emit_answer text])
          else stream_loop rest (final_answer_parts, emitted))"

definition gen_answer :: "env \<Rightarrow> message list \<Rightarrow> string option list \<Rightarrow> effect list \<times> (error + string)" where
  \<comment> \<open>Returns the events emitted and either the exception or the joined answer. The
      request of line 217 reads \<open>self.chat_messages[-1]\<close>, which raises on an empty
      list before anything is streamed.\<close>
  "gen_answer e chat_messages web_pages =
     (let chat_history = chat_history_to_string e chat_messages;
          search_results = documents 0 web_pages;
          system_prompt = answer_prompt e chat_history search_results (now_isoformat e)
      in if chat_messages = [] then ([], Inl IndexError)
         else
           let (chunks, failure) =
                 completion_stream e system_prompt (snd (last chat_messages));
               (final_answer_parts, emitted) = stream_loop chunks ([], [])
           in (emitted,
               case failure of
                 Some err \<Rightarrow> Inl err
               | None \<Rightarrow> Inr (concat final_answer_parts)))"

section \<open>run\<close>

record run_result =
  trace :: "effect list"  \<comment> \<open>events emitted and records saved, in order\<close>
  searches :: "(string \<times> Category list) list"  \<comment> \<open>the calls of the search service\<close>
  fetched :: "string list"  \<comment> \<open>the addresses requested by \<open>fetch_web_pages\<close>\<close>
  outcome :: "error option"  \<comment> \<open>\<open>None\<close> when \<open>run\<close> returns, the exception otherwise\<close>
  generated :: nat  \<comment> \<open>the number of identifiers generated when the run ends\<close>

text \<open>
  The three \<open>gather\<close> calls are the three stages after the query is processed. A
  \<open>gather\<close> starts all its tasks, so an event of one task is in the trace also when a
  sibling task fails. The emitter is taken to deliver every event. In the last
  \<open>gather\<close> the medium-results event may reach the emitter before, between or after
  the answer events: \<open>medium_slot\<close> says after how many. \<open>tags\<close> is tested against
  \<open>None\<close> as the code does, although \<open>process_user_query\<close> always sets it. The test
  \<open>if medium_results\<close> of line 321 is on a dictionary with three keys, which is
  truthy, so the model has no other branch for it.
\<close>

definition run :: "env \<Rightarrow> string \<Rightarrow> string \<Rightarrow> nat \<Rightarrow> run_result" where
  \<comment> \<open>\<open>n\<close> is the number of identifiers generated before the run.\<close>
  "run e tid user_message n =
     (case load_chat_history e tid of
        Inl err \<Rightarrow> \<lparr> trace = [], searches = [], fetched = [], outcome = Some err, generated = n \<rparr>
      | Inr prior \<Rightarrow>
     (let chat_messages = prior @ [(''user'', user_message)] in
     (case process_user_query e chat_messages of
        Inl err \<Rightarrow> \<lparr> trace = [], searches = [], fetched = [], outcome = Some err, generated = n \<rparr>
      | Inr enriched_query \<Rightarrow>
     (let q = search_query enriched_query;
          tgs = tags enriched_query;
          md = MetaData (case tgs of None \<Rightarrow> False | Some t \<Rightarrow> has_math t);
          trace1 = [emit_metadata md];
          searches1 = [(q, [General])]
      in
     (case searxng_search_results_json e q [General] of
        Inl err \<Rightarrow> \<lparr> trace = trace1, searches = searches1, fetched = [], outcome = Some err, generated = n \<rparr>
      | Inr search_results \<Rightarrow>
     (let general_results = general search_results;
          trace2 = trace1 @ [emit_web_results general_results];
          web_pages = fetch_web_pages e (take 5 general_results);
          fetched2 = map url (take 5 general_results);
          categories =
            (case tgs of
               None \<Rightarrow> []
             | Some t \<Rightarrow> (if needs_image t then [Images] else [])
                         @ (if needs_video t then [Videos] else []));
          searches2 = (if categories \<noteq> [] then searches1 @ [(q, categories)] else searches1);
          third =
            (if categories \<noteq> []
             then (case searxng_search_results_json e q categories of
                     Inl err \<Rightarrow> Inl err
                   | Inr r \<Rightarrow> Inr (Some r))
             else Inr None)
      in
     (case third of
        Inl err \<Rightarrow>
          \<lparr> trace = trace2, searches = searches2, fetched = fetched2, outcome = Some err, generated = n \<rparr>
      | Inr medium_opt \<Rightarrow>
     (let medium_results =
            (case medium_opt of
               None \<Rightarrow> \<lparr> general = [], images = [], videos = [] \<rparr>
             | Some r \<Rightarrow> r);
          (answer_events, answer_result) = gen_answer e chat_messages web_pages;
          k = medium_slot e;
          trace3 = trace2 @ take k answer_events @ [emit_medium_results medium_results]
                     @ drop k answer_events
      in
     (case answer_result of
        Inl err \<Rightarrow>
          \<lparr> trace = trace3, searches = searches2, fetched = fetched2, outcome = Some err, generated = n \<rparr>
      | Inr ans \<Rightarrow>
     (let mediums0 =
            map (\<lambda>image. [(''url'', image_url image), (''image'', img_src image),
                           (''medium'', ''image'')]) (images medium_results)
            @ map (\<lambda>video. [(''url'', video_url video), (''medium'', ''video'')])
                (videos medium_results);
          web_results0 =
            map (\<lambda>res. [(''url'', url res), (''title'', title res), (''content'', content res)])
              general_results;
          metadata0 = MetaData (case tgs of None \<Rightarrow> False | Some t \<Rightarrow> has_math t);
          chat_history =
            \<lparr> id' = uuid4 e n, thread_id = tid, mediums = mediums0, web_results = web_results0,
              query = user_message, answer = ans, metadata = metadata0 \<rparr>
      in \<lparr> trace = trace3 @ [Save tid chat_history], searches = searches2,
           fetched = fetched2, outcome = save_chat_history e tid chat_history,
           generated = n + 1 \<rparr>))))))))))"

section \<open>Notions used to state the properties\<close>

definition recognized_keys :: "string list" where
  "recognized_keys = [''SEARCH_NEEDED'', ''SEARCH_IMAGE'', ''SEARCH_VIDEO'',
                      ''CONTENT_VIOLATION'', ''MATH'']"

definition tag_keys :: "string \<Rightarrow> string list" where
  \<comment> \<open>the keys that occur in a classification response\<close>
  "tag_keys response = map hd (tag_items (strip_quotes response))"

definition key_value_pairs :: "string \<Rightarrow> bool" where
  \<comment> \<open>Follows the specification's words: the response, stripped of quotes, is a
      comma-separated list of items of the form KEY:VALUE, that is, each item has
      one colon.\<close>
  "key_value_pairs response =
     list_all (\<lambda>item. count_list item CHR '':'' = 1) (split CHR '','' (strip_quotes response))"

definition trimmed_unquoted :: "string \<Rightarrow> string" where
  \<comment> \<open>Follows the specification's words: trimmed, surrounding quote characters
      stripped.\<close>
  "trimmed_unquoted s = strip_quotes (strip s)"

definition media_categories :: "QueryTags option \<Rightarrow> Category list" where
  \<comment> \<open>the value of \<open>categories\<close> after lines 285 to 291\<close>
  "media_categories tgs =
     (case tgs of
        None \<Rightarrow> []
      | Some t \<Rightarrow> (if needs_image t then [Images] else [])
                  @ (if needs_video t then [Videos] else []))"

definition answers :: "effect list \<Rightarrow> string list" where
  \<comment> \<open>the fragments carried by the answer events of a trace, in order\<close>
  "answers tr = concat (map (\<lambda>x. case x of Emit (Answer a) \<Rightarrow> [a] | _ \<Rightarrow> []) tr)"

definition saves :: "effect list \<Rightarrow> (string \<times> ChatHistory) list" where
  \<comment> \<open>the records handed to the chat store in a trace, in order\<close>
  "saves tr = concat (map (\<lambda>x. case x of Save t r \<Rightarrow> [(t, r)] | _ \<Rightarrow> []) tr)"

subsection \<open>A sample environment\<close>

definition sample_hits :: "GeneralResult list" where
  "sample_hits =
     map (\<lambda>n. \<lparr> url = ''https://example.org/'' @ n, title = ''Mars '' @ n,
                 content = ''About Mars '' @ n, other_fields = [(''engine'', ''bing'')] \<rparr>)
       [''1'', ''2'', ''3'', ''4'', ''5'', ''6'']"

definition sample_env :: "string \<Rightarrow> string \<Rightarrow> TopResults \<Rightarrow> string option list \<Rightarrow> nat \<Rightarrow> env" where
  \<comment> \<open>The arguments are the content of the rewrite response, the content of the
      classification response, the result of a media search, the streamed chunks and
      the slot of the medium-results event. Only the first page can be retrieved. The
      extractor returns \<open>None\<close> for the empty document, as \<open>trafilatura.extract\<close> does.\<close>
  "sample_env rewritten classification media chunks k =
     \<lparr> load_chat_history = (\<lambda>tid. Inr [(''user'', ''How far is Mars?'')]),
       chat_history_to_string = (\<lambda>ms. concat (map snd ms)),
       search_prompt = (\<lambda>h q. h @ q),
       classification_prompt = (\<lambda>h q. h @ q),
       answer_prompt = (\<lambda>h s d. h @ s @ d),
       rewrite_completion = (\<lambda>p. Inr rewritten),
       classify_completion = (\<lambda>p. Inr classification),
       searxng_search_results_json =
         (\<lambda>q cats. if cats = [General]
                    then Inr \<lparr> general = sample_hits, images = [], videos = [] \<rparr>
                    else Inr media),
       session_get_text =
         (\<lambda>u. if u = ''https://example.org/1'' then Inr ''Mars is far.''
               else Inl (RequestError ''timeout'')),
       trafilatura_extract = (\<lambda>html. if html = '''' then None else Some html),
       completion_stream = (\<lambda>system_prompt user_content. (chunks, None)),
       now_isoformat = ''2024-05-01T12:00:00'',
       uuid4 = (\<lambda>k. ''0b4e2c1a-'' @ replicate k CHR ''0''),
       save_chat_history = (\<lambda>t r. None),
       medium_slot = k \<rparr>"

definition sample_media :: TopResults where
  "sample_media =
     \<lparr> general = [],
       images = [\<lparr> image_url = ''https://example.org/i'', img_src = ''https://example.org/i.png'' \<rparr>],
       videos = [\<lparr> video_url = ''https://example.org/v'' \<rparr>] \<rparr>"

definition no_media :: TopResults where
  "no_media = \<lparr> general = [], images = [], videos = [] \<rparr>"

definition web_payloads :: "effect list \<Rightarrow> py_dict list list" where
  \<comment> \<open>the payloads of the web-results events of a trace, in order\<close>
  "web_payloads tr = concat (map (\<lambda>x. case x of Emit (Web_results p) \<Rightarrow> [p] | _ \<Rightarrow> []) tr)"

definition medium_payloads :: "effect list \<Rightarrow> py_dict list list" where
  \<comment> \<open>the payloads of the medium-results events of a trace, in order\<close>
  "medium_payloads tr =
     concat (map (\<lambda>x. case x of Emit (Medium_results p) \<Rightarrow> [p] | _ \<Rightarrow> []) tr)"

definition metadata_payloads :: "effect list \<Rightarrow> MetaData list" where
  \<comment> \<open>the payloads of the metadata events of a trace, in order\<close>
  "metadata_payloads tr = concat (map (\<lambda>x. case x of Emit (Metadata p) \<Rightarrow> [p] | _ \<Rightarrow> []) tr)"

definition sample_run_env :: env where
  \<comment> \<open>the rewrite comes back in double quotes; images and videos are wanted\<close>
  "sample_run_env =
     sample_env (CHR 0x22 # ''mars distance'' @ [CHR 0x22])
       ''SEARCH_IMAGE:YES,SEARCH_VIDEO:YES,MATH:YES, FOO:BAR'' sample_media
       [Some ''171.7 '', None, Some '''', Some ''million mi''] 1"

definition sample_plain_env :: env where
  \<comment> \<open>neither images nor videos are wanted\<close>
  "sample_plain_env =
     sample_env ''mars distance''
       ''SEARCH_NEEDED:YES,SEARCH_IMAGE:NO,SEARCH_VIDEO:NO,CONTENT_VIOLATION:NO,MATH:YES''
       sample_media [Some ''171.7 '', Some ''million mi''] 0"

section \<open>Facts about the string primitives\<close>

lemma split_not_Nil: "split sep s \<noteq> []"
  by (induction s) (auto split: list.splits)

lemma length_split: "length (split sep s) = Suc (count_list s sep)"
  by (induction s) (auto split: list.splits simp: split_not_Nil)

lemma count_list_dropWhile: "\<not> P c \<Longrightarrow> count_list (dropWhile P xs) c = count_list xs c"
  by (induction xs) auto

lemma count_list_reverse: "count_list (rev xs) c = count_list xs c"
  by (induction xs) auto

lemma count_list_strip_chars:
  "c \<notin> set cs \<Longrightarrow> count_list (strip_chars cs s) c = count_list s c"
  by (simp add: strip_chars_def count_list_reverse count_list_dropWhile)

lemma count_list_strip: "count_list (strip s) CHR '':'' = count_list s CHR '':''"
  unfolding strip_def by (rule count_list_strip_chars) (simp add: whitespace_def)

text \<open>
  \<open>strip_chars\<close> only removes characters of the given set from the two ends: the
  string is the result between a prefix and a suffix of such characters, and the
  result neither starts nor ends with one.
\<close>

lemma dropWhile_decompose:
  "\<exists>pre. xs = pre @ dropWhile P xs \<and> (\<forall>c\<in>set pre. P c)"
  by (rule exI [of _ "takeWhile P xs"]) (auto dest: set_takeWhileD)

lemma strip_chars_verbatim:
  "\<exists>pre suf. s = pre @ strip_chars cs s @ suf \<and> set pre \<subseteq> set cs \<and> set suf \<subseteq> set cs"
proof -
  let ?P = "\<lambda>c. c \<in> set cs"
  obtain pre where pre: "s = pre @ dropWhile ?P s" "\<forall>c\<in>set pre. ?P c"
    using dropWhile_decompose [of s ?P] by blast
  obtain suf where suf: "rev (dropWhile ?P s) = suf @ dropWhile ?P (rev (dropWhile ?P s))"
    "\<forall>c\<in>set suf. ?P c"
    using dropWhile_decompose [of "rev (dropWhile ?P s)" ?P] by blast
  from suf(1) have "dropWhile ?P s = strip_chars cs s @ rev suf"
    unfolding strip_chars_def by (metis rev_append rev_rev_ident)
  with pre(1) have "s = pre @ strip_chars cs s @ rev suf" by simp
  moreover have "set pre \<subseteq> set cs" using pre(2) by blast
  moreover have "set (rev suf) \<subseteq> set cs" using suf(2) by auto
  ultimately show ?thesis by blast
qed

lemma strip_chars_ends:
  assumes "strip_chars cs s \<noteq> []"
  shows "hd (strip_chars cs s) \<notin> set cs \<and> last (strip_chars cs s) \<notin> set cs"
proof -
  let ?P = "\<lambda>c. c \<in> set cs"
  let ?m = "dropWhile ?P s"
  let ?r = "dropWhile ?P (rev ?m)"
  have r: "?r \<noteq> []" using assms by (simp add: strip_chars_def)
  then have "\<not> ?P (hd ?r)" by (rule hd_dropWhile)
  then have l: "last (strip_chars cs s) \<notin> set cs"
    using r by (simp add: strip_chars_def last_rev)
  have m: "?m \<noteq> []" using r by (cases "?m = []") simp_all
  then have hm: "\<not> ?P (hd ?m)" by (rule hd_dropWhile)
  obtain suf where "rev ?m = suf @ ?r" "\<forall>c\<in>set suf. ?P c"
    using dropWhile_decompose [of "rev ?m" ?P] by blast
  then have "?m = strip_chars cs s @ rev suf"
    unfolding strip_chars_def by (metis rev_append rev_rev_ident)
  then have "hd ?m = hd (strip_chars cs s)" using assms by (metis hd_append2)
  with hm l show ?thesis by simp
qed

section \<open>Facts about the dictionary of tags\<close>

lemma dict_Inr_iff: "(\<exists>d. dict items m = Inr d) \<longleftrightarrow> (\<forall>kv\<in>set items. length kv = 2)"
proof (induction items arbitrary: m)
  case Nil
  show ?case by simp
next
  case (Cons kv items)
  show ?case
  proof (cases kv)
    case Nil
    then show ?thesis by simp
  next
    case (Cons k r)
    note kr = this
    show ?thesis
    proof (cases r)
      case Nil
      then show ?thesis using kr by simp
    next
      case (Cons v r')
      then show ?thesis using kr Cons.IH by (cases r') simp_all
    qed
  qed
qed

lemma dict_Inl: "dict items m = Inl err \<Longrightarrow> err = ValueError"
  by (induction items m rule: dict.induct) (auto split: list.splits)

lemma dict_Cons_Inr:
  "dict (kv # rest) m = Inr d \<Longrightarrow> \<exists>a b. kv = [a, b] \<and> dict rest (m(a \<mapsto> b)) = Inr d"
  by (auto split: list.splits)

lemma find_app:
  "find P (xs @ ys) = (case find P xs of None \<Rightarrow> find P ys | Some x \<Rightarrow> Some x)"
  by (induction xs) auto

text \<open>The value of a key is the value of its last item, as in Python.\<close>

lemma dict_lookup:
  "dict items m = Inr d \<Longrightarrow>
   d k = (case find (\<lambda>kv. hd kv = k) (rev items) of None \<Rightarrow> m k | Some kv \<Rightarrow> Some (kv ! 1))"
proof (induction items arbitrary: m)
  case Nil
  then show ?case by simp
next
  case (Cons kv rest)
  from dict_Cons_Inr [OF Cons.prems] obtain a b
    where kv: "kv = [a, b]" and rest: "dict rest (m(a \<mapsto> b)) = Inr d"
    by blast
  from Cons.IH [OF rest]
  have "d k = (case find (\<lambda>kv. hd kv = k) (rev rest) of
                 None \<Rightarrow> (m(a \<mapsto> b)) k | Some kv \<Rightarrow> Some (kv ! 1))" .
  then show ?case using kv
    by (auto simp: find_app split: option.splits)
qed

lemma find_filter_weaker:
  "(\<And>x. P x \<Longrightarrow> Q x) \<Longrightarrow> find P (filter Q xs) = find P xs"
  by (induction xs) auto

lemma dict_absent_key:
  assumes "dict items Map.empty = Inr d" and "k \<notin> set (map hd items)"
  shows "d k = None"
proof -
  have "find (\<lambda>kv. hd kv = k) (rev items) = None"
    using assms(2) by (auto simp: find_None_iff)
  then show ?thesis using dict_lookup [OF assms(1), of k] by simp
qed

lemma dict_filter_recognized:
  assumes "dict items Map.empty = Inr d"
  shows "\<exists>d'. dict (filter (\<lambda>kv. hd kv \<in> set recognized_keys) items) Map.empty = Inr d'
              \<and> (\<forall>k\<in>set recognized_keys. d' k = d k)"
proof -
  let ?Q = "\<lambda>kv. hd kv \<in> set recognized_keys"
  from assms have "\<forall>kv\<in>set items. length kv = 2" using dict_Inr_iff by blast
  then have "\<forall>kv\<in>set (filter ?Q items). length kv = 2" by simp
  then obtain d' where d': "dict (filter ?Q items) Map.empty = Inr d'"
    using dict_Inr_iff by blast
  have "d' k = d k" if "k \<in> set recognized_keys" for k
  proof -
    have "find (\<lambda>kv. hd kv = k) (filter ?Q (rev items)) = find (\<lambda>kv. hd kv = k) (rev items)"
      by (rule find_filter_weaker) (use that in simp)
    then show ?thesis
      using dict_lookup [OF d', of k] dict_lookup [OF assms, of k] by (simp add: rev_filter)
  qed
  with d' show ?thesis by blast
qed

lemma query_tags_cong:
  "(\<forall>k\<in>set recognized_keys. d' k = d k) \<Longrightarrow> query_tags d' = query_tags d"
  by (simp add: query_tags_def get_def recognized_keys_def)

lemma parse_tags_Inr:
  "parse_tags response = Inr t \<Longrightarrow> \<exists>d. tags_dict response = Inr d \<and> t = query_tags d"
  by (auto simp: parse_tags_def split: sum.splits)

lemma parse_tags_fails_iff:
  "parse_tags response = Inl ValueError \<longleftrightarrow> \<not> key_value_pairs response"
proof -
  let ?items = "tag_items (strip_quotes response)"
  have "(\<forall>kv\<in>set ?items. length kv = 2) \<longleftrightarrow> key_value_pairs response"
    by (simp add: tag_items_def key_value_pairs_def list_all_iff length_split count_list_strip)
  then have iff: "(\<exists>d. tags_dict response = Inr d) \<longleftrightarrow> key_value_pairs response"
    using dict_Inr_iff [of ?items Map.empty] by (simp add: tags_dict_def)
  show ?thesis
  proof (cases "tags_dict response")
    case (Inl err)
    then have "err = ValueError" by (simp add: tags_dict_def dict_Inl)
    with Inl iff show ?thesis by (auto simp: parse_tags_def)
  next
    case (Inr d)
    with iff show ?thesis by (auto simp: parse_tags_def)
  qed
qed

section \<open>Facts about the streaming loop and the page fetcher\<close>

lemma stream_loop_eq:
  "stream_loop chunks (parts, emitted) =
     (parts @ filter (\<lambda>t. t \<noteq> '''') (map or_empty chunks),
      emitted @ map emit_answer (filter (\<lambda>t. t \<noteq> '''') (map or_empty chunks)))"
  by (induction chunks arbitrary: parts emitted)
     (auto simp: or_empty_def split: option.splits)

lemma concat_filter_nonempty: "concat (filter (\<lambda>t. t \<noteq> []) xs) = concat xs"
  by (induction xs) auto

lemma answers_map_emit_answer [simp]: "answers (map emit_answer xs) = xs"
  by (induction xs) (auto simp: answers_def emit_answer_def)

lemma answers_append [simp]: "answers (xs @ ys) = answers xs @ answers ys"
  by (simp add: answers_def)

lemma saves_append [simp]: "saves (xs @ ys) = saves xs @ saves ys"
  by (simp add: saves_def)

lemma saves_map_emit_answer [simp]: "saves (map emit_answer xs) = []"
  by (induction xs) (auto simp: saves_def emit_answer_def)

lemma gen_answer_events:
  "\<exists>parts. fst (gen_answer e ms pages) = map emit_answer parts
     \<and> (\<forall>a. snd (gen_answer e ms pages) = Inr a \<longrightarrow> a = concat parts)"
proof (cases "ms = []")
  case True
  then have "gen_answer e ms pages = (map emit_answer [], Inl IndexError)"
    by (simp add: gen_answer_def)
  then show ?thesis by (metis fst_conv snd_conv sum.distinct(1))
next
  case False
  then show ?thesis
    by (auto simp: gen_answer_def Let_def stream_loop_eq split: prod.splits option.splits)
qed

section \<open>Symbolic execution of run\<close>

lemma process_user_query_unfold:
  "process_user_query e (prior @ [(''user'', msg)]) =
     (case rewrite_completion e
             (search_prompt e (chat_history_to_string e (prior @ [(''user'', msg)])) msg) of
        Inl err \<Rightarrow> Inl err
      | Inr search_content \<Rightarrow>
          (case classify_completion e
                  (classification_prompt e
                     (chat_history_to_string e (prior @ [(''user'', msg)])) msg) of
             Inl err \<Rightarrow> Inl err
           | Inr classify_content \<Rightarrow>
               (case parse_tags classify_content of
                  Inl err \<Rightarrow> Inl err
                | Inr t \<Rightarrow> Inr \<lparr> search_query = strip_quotes search_content, tags = Some t \<rparr>)))"
  by (simp add: process_user_query_def Let_def)

lemma run_load_fails:
  "load_chat_history e tid = Inl err \<Longrightarrow>
   run e tid msg n = \<lparr> trace = [], searches = [], fetched = [], outcome = Some err, generated = n \<rparr>"
  by (simp add: run_def)

lemma run_query_fails:
  "load_chat_history e tid = Inr prior \<Longrightarrow>
   process_user_query e (prior @ [(''user'', msg)]) = Inl err \<Longrightarrow>
   run e tid msg n = \<lparr> trace = [], searches = [], fetched = [], outcome = Some err, generated = n \<rparr>"
  by (simp add: run_def)

lemma run_search_fails:
  "load_chat_history e tid = Inr prior \<Longrightarrow>
   process_user_query e (prior @ [(''user'', msg)]) = Inr eq \<Longrightarrow>
   searxng_search_results_json e (search_query eq) [General] = Inl err \<Longrightarrow>
   run e tid msg n =
     \<lparr> trace = [emit_metadata (MetaData (case tags eq of None \<Rightarrow> False | Some t \<Rightarrow> has_math t))],
       searches = [(search_query eq, [General])], fetched = [], outcome = Some err, generated = n \<rparr>"
  by (simp add: run_def Let_def)

lemma run_media_search_fails:
  "load_chat_history e tid = Inr prior \<Longrightarrow>
   process_user_query e (prior @ [(''user'', msg)]) = Inr eq \<Longrightarrow>
   searxng_search_results_json e (search_query eq) [General] = Inr sr \<Longrightarrow>
   media_categories (tags eq) \<noteq> [] \<Longrightarrow>
   searxng_search_results_json e (search_query eq) (media_categories (tags eq)) = Inl err \<Longrightarrow>
   run e tid msg n =
     \<lparr> trace = [emit_metadata (MetaData (case tags eq of None \<Rightarrow> False | Some t \<Rightarrow> has_math t)),
                emit_web_results (general sr)],
       searches = [(search_query eq, [General]), (search_query eq, media_categories (tags eq))],
       fetched = map url (take 5 (general sr)), outcome = Some err, generated = n \<rparr>"
  by (simp add: run_def Let_def media_categories_def)

lemma run_answer_fails:
  "load_chat_history e tid = Inr prior \<Longrightarrow>
   process_user_query e (prior @ [(''user'', msg)]) = Inr eq \<Longrightarrow>
   searxng_search_results_json e (search_query eq) [General] = Inr sr \<Longrightarrow>
   (if media_categories (tags eq) = [] then mr = \<lparr> general = [], images = [], videos = [] \<rparr>
    else searxng_search_results_json e (search_query eq) (media_categories (tags eq)) = Inr mr) \<Longrightarrow>
   gen_answer e (prior @ [(''user'', msg)]) (fetch_web_pages e (take 5 (general sr)))
     = (evs, Inl err) \<Longrightarrow>
   run e tid msg n =
     \<lparr> trace = [emit_metadata (MetaData (case tags eq of None \<Rightarrow> False | Some t \<Rightarrow> has_math t)),
                emit_web_results (general sr)]
               @ take (medium_slot e) evs @ [emit_medium_results mr] @ drop (medium_slot e) evs,
       searches = (if media_categories (tags eq) = [] then [(search_query eq, [General])]
                   else [(search_query eq, [General]),
                         (search_query eq, media_categories (tags eq))]),
       fetched = map url (take 5 (general sr)), outcome = Some err, generated = n \<rparr>"
  by (cases "media_categories (tags eq) = []")
     (simp_all add: run_def Let_def media_categories_def)

lemma run_answered:
  "load_chat_history e tid = Inr prior \<Longrightarrow>
   process_user_query e (prior @ [(''user'', msg)]) = Inr eq \<Longrightarrow>
   searxng_search_results_json e (search_query eq) [General] = Inr sr \<Longrightarrow>
   (if media_categories (tags eq) = [] then mr = \<lparr> general = [], images = [], videos = [] \<rparr>
    else searxng_search_results_json e (search_query eq) (media_categories (tags eq)) = Inr mr) \<Longrightarrow>
   gen_answer e (prior @ [(''user'', msg)]) (fetch_web_pages e (take 5 (general sr)))
     = (evs, Inr ans) \<Longrightarrow>
   rec = \<lparr> id' = uuid4 e n, thread_id = tid,
           mediums = map (\<lambda>image. [(''url'', image_url image), (''image'', img_src image),
                                    (''medium'', ''image'')]) (images mr)
                     @ map (\<lambda>video. [(''url'', video_url video), (''medium'', ''video'')])
                         (videos mr),
           web_results = map (\<lambda>res. [(''url'', url res), (''title'', title res),
                                       (''content'', content res)]) (general sr),
           query = msg, answer = ans,
           metadata = MetaData (case tags eq of None \<Rightarrow> False | Some t \<Rightarrow> has_math t) \<rparr> \<Longrightarrow>
   run e tid msg n =
     \<lparr> trace = [emit_metadata (MetaData (case tags eq of None \<Rightarrow> False | Some t \<Rightarrow> has_math t)),
                emit_web_results (general sr)]
               @ take (medium_slot e) evs @ [emit_medium_results mr] @ drop (medium_slot e) evs
               @ [Save tid rec],
       searches = (if media_categories (tags eq) = [] then [(search_query eq, [General])]
                   else [(search_query eq, [General]),
                         (search_query eq, media_categories (tags eq))]),
       fetched = map url (take 5 (general sr)),
       outcome = save_chat_history e tid rec, generated = Suc n \<rparr>"
  by (cases "media_categories (tags eq) = []")
     (simp_all add: run_def Let_def media_categories_def)

text \<open>Every run ends in one of the six ways above.\<close>

lemma run_cases:
  obtains
    (load_fails) err where "load_chat_history e tid = Inl err"
  | (query_fails) prior err where "load_chat_history e tid = Inr prior"
      "process_user_query e (prior @ [(''user'', msg)]) = Inl err"
  | (search_fails) prior eq err where "load_chat_history e tid = Inr prior"
      "process_user_query e (prior @ [(''user'', msg)]) = Inr eq"
      "searxng_search_results_json e (search_query eq) [General] = Inl err"
  | (media_search_fails) prior eq sr err where "load_chat_history e tid = Inr prior"
      "process_user_query e (prior @ [(''user'', msg)]) = Inr eq"
      "searxng_search_results_json e (search_query eq) [General] = Inr sr"
      "media_categories (tags eq) \<noteq> []"
      "searxng_search_results_json e (search_query eq) (media_categories (tags eq)) = Inl err"
  | (answer_fails) prior eq sr mr evs err where "load_chat_history e tid = Inr prior"
      "process_user_query e (prior @ [(''user'', msg)]) = Inr eq"
      "searxng_search_results_json e (search_query eq) [General] = Inr sr"
      "if media_categories (tags eq) = [] then mr = \<lparr> general = [], images = [], videos = [] \<rparr>
       else searxng_search_results_json e (search_query eq) (media_categories (tags eq)) = Inr mr"
      "gen_answer e (prior @ [(''user'', msg)]) (fetch_web_pages e (take 5 (general sr)))
         = (evs, Inl err)"
  | (answered) prior eq sr mr evs ans where "load_chat_history e tid = Inr prior"
      "process_user_query e (prior @ [(''user'', msg)]) = Inr eq"
      "searxng_search_results_json e (search_query eq) [General] = Inr sr"
      "if media_categories (tags eq) = [] then mr = \<lparr> general = [], images = [], videos = [] \<rparr>
       else searxng_search_results_json e (search_query eq) (media_categories (tags eq)) = Inr mr"
      "gen_answer e (prior @ [(''user'', msg)]) (fetch_web_pages e (take 5 (general sr)))
         = (evs, Inr ans)"
proof (cases "load_chat_history e tid")
  case (Inl err)
  then show ?thesis by (rule load_fails)
next
  case (Inr prior)
  note 1 = this
  show ?thesis
  proof (cases "process_user_query e (prior @ [(''user'', msg)])")
    case (Inl err)
    with 1 show ?thesis by (rule query_fails)
  next
    case (Inr eq)
    note 2 = this
    show ?thesis
    proof (cases "searxng_search_results_json e (search_query eq) [General]")
      case (Inl err)
      with 1 2 show ?thesis by (rule search_fails)
    next
      case (Inr sr)
      note 3 = this
      let ?cats = "media_categories (tags eq)"
      let ?pages = "fetch_web_pages e (take 5 (general sr))"
      obtain evs res where 5: "gen_answer e (prior @ [(''user'', msg)]) ?pages = (evs, res)"
        by (cases "gen_answer e (prior @ [(''user'', msg)]) ?pages")
      have rest: thesis
        if 4: "if ?cats = [] then mr = \<lparr> general = [], images = [], videos = [] \<rparr>
               else searxng_search_results_json e (search_query eq) ?cats = Inr mr" for mr
      proof (cases res)
        case (Inl err)
        with 5 have "gen_answer e (prior @ [(''user'', msg)]) ?pages = (evs, Inl err)" by simp
        with 1 2 3 4 show ?thesis by (rule answer_fails)
      next
        case (Inr ans)
        with 5 have "gen_answer e (prior @ [(''user'', msg)]) ?pages = (evs, Inr ans)" by simp
        with 1 2 3 4 show ?thesis by (rule answered)
      qed
      show ?thesis
      proof (cases "?cats = []")
        case True
        then show ?thesis using rest [of "\<lparr> general = [], images = [], videos = [] \<rparr>"] by simp
      next
        case False
        note cats = this
        show ?thesis
        proof (cases "searxng_search_results_json e (search_query eq) ?cats")
          case (Inl err)
          with 1 2 3 cats show ?thesis by (rule media_search_fails)
        next
          case (Inr mr)
          with cats show ?thesis using rest [of mr] by simp
        qed
      qed
    qed
  qed
qed

lemma process_user_query_Inr:
  assumes "process_user_query e (prior @ [(''user'', msg)]) = Inr eq"
  shows "\<exists>out cls t.
           rewrite_completion e
             (search_prompt e (chat_history_to_string e (prior @ [(''user'', msg)])) msg) = Inr out
         \<and> classify_completion e
             (classification_prompt e (chat_history_to_string e (prior @ [(''user'', msg)])) msg)
             = Inr cls
         \<and> parse_tags cls = Inr t
         \<and> eq = \<lparr> search_query = strip_quotes out, tags = Some t \<rparr>"
  using assms unfolding process_user_query_unfold
  by (auto split: sum.splits)

section \<open>Reading a trace\<close>

lemma map_constant: "\<forall>x\<in>set xs. f x = c \<Longrightarrow> map f xs = replicate (length xs) c"
  by (induction xs) auto

lemma answers_simps [simp]:
  "answers [] = []"
  "answers (emit_answer a # tr) = a # answers tr"
  "answers (emit_metadata md # tr) = answers tr"
  "answers (emit_web_results rs # tr) = answers tr"
  "answers (emit_medium_results m # tr) = answers tr"
  "answers (Save t r # tr) = answers tr"
  by (simp_all add: answers_def emit_answer_def emit_metadata_def emit_web_results_def
        emit_medium_results_def)

lemma saves_simps [simp]:
  "saves [] = []"
  "saves (emit_answer a # tr) = saves tr"
  "saves (emit_metadata md # tr) = saves tr"
  "saves (emit_web_results rs # tr) = saves tr"
  "saves (emit_medium_results m # tr) = saves tr"
  "saves (Save t r # tr) = (t, r) # saves tr"
  by (simp_all add: saves_def emit_answer_def emit_metadata_def emit_web_results_def
        emit_medium_results_def)

lemma web_payloads_simps [simp]:
  "web_payloads [] = []"
  "web_payloads (xs @ ys) = web_payloads xs @ web_payloads ys"
  "web_payloads (emit_answer a # tr) = web_payloads tr"
  "web_payloads (emit_metadata md # tr) = web_payloads tr"
  "web_payloads (emit_web_results rs # tr) =
     map (\<lambda>res. [(''url'', url res), (''title'', title res), (''content'', content res)]) rs
       # web_payloads tr"
  "web_payloads (emit_medium_results m # tr) = web_payloads tr"
  "web_payloads (Save t r # tr) = web_payloads tr"
  by (simp_all add: web_payloads_def emit_answer_def emit_metadata_def emit_web_results_def
        emit_medium_results_def)

lemma medium_payloads_simps [simp]:
  "medium_payloads [] = []"
  "medium_payloads (xs @ ys) = medium_payloads xs @ medium_payloads ys"
  "medium_payloads (emit_answer a # tr) = medium_payloads tr"
  "medium_payloads (emit_metadata md # tr) = medium_payloads tr"
  "medium_payloads (emit_web_results rs # tr) = medium_payloads tr"
  "medium_payloads (emit_medium_results m # tr) =
     (map (\<lambda>image. [(''url'', image_url image), (''image'', img_src image),
                     (''medium'', ''image'')]) (images m)
      @ map (\<lambda>video. [(''url'', video_url video), (''medium'', ''video'')]) (videos m))
       # medium_payloads tr"
  "medium_payloads (Save t r # tr) = medium_payloads tr"
  by (simp_all add: medium_payloads_def emit_answer_def emit_metadata_def emit_web_results_def
        emit_medium_results_def)

lemma metadata_payloads_simps [simp]:
  "metadata_payloads [] = []"
  "metadata_payloads (xs @ ys) = metadata_payloads xs @ metadata_payloads ys"
  "metadata_payloads (emit_answer a # tr) = metadata_payloads tr"
  "metadata_payloads (emit_metadata md # tr) = md # metadata_payloads tr"
  "metadata_payloads (emit_web_results rs # tr) = metadata_payloads tr"
  "metadata_payloads (emit_medium_results m # tr) = metadata_payloads tr"
  "metadata_payloads (Save t r # tr) = metadata_payloads tr"
  by (simp_all add: metadata_payloads_def emit_answer_def emit_metadata_def
        emit_web_results_def emit_medium_results_def)

lemma payloads_map_emit_answer [simp]:
  "web_payloads (map emit_answer xs) = []"
  "medium_payloads (map emit_answer xs) = []"
  "metadata_payloads (map emit_answer xs) = []"
  by (induction xs) simp_all

text \<open>Whatever the outcome, a record saved by a run carries the identifier of this call.\<close>

lemma saved_identifier:
  assumes "(t, r) \<in> set (saves (trace (run e tid msg n)))"
  shows "id' r = uuid4 e n"
proof (cases rule: run_cases [where e = e and tid = tid and msg = msg])
  case (load_fails err)
  then show ?thesis using assms by (simp add: run_load_fails)
next
  case (query_fails prior err)
  then show ?thesis using assms by (simp add: run_query_fails)
next
  case (search_fails prior eq err)
  then show ?thesis using assms by (simp add: run_search_fails)
next
  case (media_search_fails prior eq sr err)
  then show ?thesis using assms by (simp add: run_media_search_fails)
next
  case (answer_fails prior eq sr mr evs err)
  from gen_answer_events [of e "prior @ [(''user'', msg)]" "fetch_web_pages e (take 5 (general sr))"]
    answer_fails(5)
  obtain parts where "evs = map emit_answer parts" by auto
  then show ?thesis using assms answer_fails
    by (simp add: run_answer_fails take_map drop_map)
next
  case (answered prior eq sr mr evs ans)
  from gen_answer_events [of e "prior @ [(''user'', msg)]" "fetch_web_pages e (take 5 (general sr))"]
    answered(5)
  obtain parts where "evs = map emit_answer parts" by auto
  then show ?thesis using assms run_answered [OF answered refl, where n = n]
    by (simp add: take_map drop_map)
qed

text \<open>
  A run that returns went through every stage. Its trace is the metadata event, the
  web-results event, the answer events with the medium-results event among them, and
  the record saved.
\<close>

lemma run_success:
  assumes ok: "outcome (run e tid msg n) = None"
  shows "\<exists>prior out cls t sr mr parts rec.
     load_chat_history e tid = Inr prior
   \<and> rewrite_completion e
       (search_prompt e (chat_history_to_string e (prior @ [(''user'', msg)])) msg) = Inr out
   \<and> classify_completion e
       (classification_prompt e (chat_history_to_string e (prior @ [(''user'', msg)])) msg)
       = Inr cls
   \<and> parse_tags cls = Inr t
   \<and> process_user_query e (prior @ [(''user'', msg)])
       = Inr \<lparr> search_query = strip_quotes out, tags = Some t \<rparr>
   \<and> searxng_search_results_json e (strip_quotes out) [General] = Inr sr
   \<and> (if media_categories (Some t) = []
       then mr = \<lparr> general = [], images = [], videos = [] \<rparr>
       else searxng_search_results_json e (strip_quotes out) (media_categories (Some t))
              = Inr mr)
   \<and> gen_answer e (prior @ [(''user'', msg)]) (fetch_web_pages e (take 5 (general sr)))
       = (map emit_answer parts, Inr (concat parts))
   \<and> rec = \<lparr> id' = uuid4 e n, thread_id = tid,
             mediums = map (\<lambda>image. [(''url'', image_url image), (''image'', img_src image),
                                      (''medium'', ''image'')]) (images mr)
                       @ map (\<lambda>video. [(''url'', video_url video), (''medium'', ''video'')])
                           (videos mr),
             web_results = map (\<lambda>res. [(''url'', url res), (''title'', title res),
                                         (''content'', content res)]) (general sr),
             query = msg, answer = concat parts, metadata = MetaData (has_math t) \<rparr>
   \<and> save_chat_history e tid rec = None
   \<and> trace (run e tid msg n) =
        [emit_metadata (MetaData (has_math t)), emit_web_results (general sr)]
        @ map emit_answer (take (medium_slot e) parts) @ [emit_medium_results mr]
        @ map emit_answer (drop (medium_slot e) parts) @ [Save tid rec]
   \<and> searches (run e tid msg n) =
        (if media_categories (Some t) = [] then [(strip_quotes out, [General])]
         else [(strip_quotes out, [General]), (strip_quotes out, media_categories (Some t))])
   \<and> fetched (run e tid msg n) = map url (take 5 (general sr))
   \<and> generated (run e tid msg n) = Suc n"
proof (cases rule: run_cases [where e = e and tid = tid and msg = msg])
  case (load_fails err)
  then show ?thesis using ok by (simp add: run_load_fails)
next
  case (query_fails prior err)
  then show ?thesis using ok by (simp add: run_query_fails)
next
  case (search_fails prior eq err)
  then show ?thesis using ok by (simp add: run_search_fails)
next
  case (media_search_fails prior eq sr err)
  then show ?thesis using ok by (simp add: run_media_search_fails)
next
  case (answer_fails prior eq sr mr evs err)
  then show ?thesis using ok by (simp add: run_answer_fails)
next
  case (answered prior eq sr mr evs ans)
  from process_user_query_Inr [OF answered(2)] obtain out cls t where
    q: "rewrite_completion e
          (search_prompt e (chat_history_to_string e (prior @ [(''user'', msg)])) msg) = Inr out"
       "classify_completion e
          (classification_prompt e (chat_history_to_string e (prior @ [(''user'', msg)])) msg)
          = Inr cls"
       "parse_tags cls = Inr t"
       "eq = \<lparr> search_query = strip_quotes out, tags = Some t \<rparr>"
    by blast
  let ?pages = "fetch_web_pages e (take 5 (general sr))"
  from gen_answer_events [of e "prior @ [(''user'', msg)]" ?pages] answered(5)
  obtain parts where parts: "evs = map emit_answer parts" "ans = concat parts"
    by auto
  define rec where "rec = \<lparr> id' = uuid4 e n, thread_id = tid,
             mediums = map (\<lambda>image. [(''url'', image_url image), (''image'', img_src image),
                                      (''medium'', ''image'')]) (images mr)
                       @ map (\<lambda>video. [(''url'', video_url video), (''medium'', ''video'')])
                           (videos mr),
             web_results = map (\<lambda>res. [(''url'', url res), (''title'', title res),
                                         (''content'', content res)]) (general sr),
             query = msg, answer = concat parts, metadata = MetaData (has_math t) \<rparr>"
  have r: "run e tid msg n =
     \<lparr> trace = [emit_metadata (MetaData (has_math t)), emit_web_results (general sr)]
               @ take (medium_slot e) evs @ [emit_medium_results mr] @ drop (medium_slot e) evs
               @ [Save tid rec],
       searches = (if media_categories (tags eq) = [] then [(search_query eq, [General])]
                   else [(search_query eq, [General]),
                         (search_query eq, media_categories (tags eq))]),
       fetched = map url (take 5 (general sr)),
       outcome = save_chat_history e tid rec, generated = Suc n \<rparr>"
    using run_answered [OF answered(1-5), of rec] q(4) parts(2) by (simp add: rec_def)
  then have s: "save_chat_history e tid rec = None" using ok by simp
  show ?thesis
    apply (rule exI [of _ prior], rule exI [of _ out], rule exI [of _ cls], rule exI [of _ t])
    apply (rule exI [of _ sr], rule exI [of _ mr], rule exI [of _ parts], rule exI [of _ rec])
    using answered q parts s r
    by (simp add: rec_def take_map drop_map cong: if_cong)
qed

section \<open>The page fetcher\<close>

text \<open>
  The list returned has one entry for each result, in order, and the entry at an index
  is the extractor's output on the document of the result at that index alone: the text
  retrieved, or the empty string when the retrieval failed.
\<close>

lemma fetch_web_pages_entries:
  "length (fetch_web_pages e results) = length results"
  "i < length results \<Longrightarrow>
     fetch_web_pages e results ! i
       = trafilatura_extract e
           (case session_get_text e (url (results ! i)) of Inl err \<Rightarrow> '''' | Inr text \<Rightarrow> text)"
  by (auto simp: fetch_web_pages_def fetch_page_def or_empty_def split: sum.splits)

text \<open>
  C1. The function is annotated to return a list of strings and replaces a page that
  could not be retrieved by the empty string before extraction, but it returns what
  the extractor returns for that empty document, and \<open>trafilatura.extract\<close> returns
  \<open>None\<close> for it. With six results of which only the first can be retrieved, the list
  has six entries, the first is the text extracted and the other five are \<open>None\<close>,
  not the empty string; \<open>gen_answer\<close> then prints such an entry as the word \<open>None\<close>.
\<close>

theorem fetch_web_pages_failed_url_gives_None:
  "session_get_text sample_run_env (url (sample_hits ! 1)) = Inl (RequestError ''timeout'')
   \<and> fetch_web_pages sample_run_env sample_hits
       = [Some ''Mars is far.'', None, None, None, None, None]
   \<and> fetch_web_pages sample_run_env sample_hits ! 1 \<noteq> Some ''''
   \<and> documents 0 (take 2 (fetch_web_pages sample_run_env sample_hits))
       = ''Document: 1'' @ [CHR 0x0A] @ ''Mars is far.'' @ [CHR 0x0A, CHR 0x0A]
         @ ''Document: 2'' @ [CHR 0x0A] @ ''None'' @ [CHR 0x0A, CHR 0x0A]"
  by code_simp

section \<open>The classification\<close>

text \<open>
  C2. When the classification response is a comma-separated list of KEY:VALUE items,
  parsing succeeds, and every recognized key that does not occur takes its default:
  true for \<open>needs_search\<close>, \<open>needs_image\<close> and \<open>needs_video\<close>, false for
  \<open>content_violation\<close> and \<open>has_math\<close>. Items with other keys are ignored: the tags
  are those of the dictionary built from the items with recognized keys only.
\<close>

theorem absent_keys_take_defaults:
  assumes "key_value_pairs response"
  shows "\<exists>t. parse_tags response = Inr t
     \<and> (''SEARCH_NEEDED'' \<notin> set (tag_keys response) \<longrightarrow> needs_search t)
     \<and> (''SEARCH_IMAGE'' \<notin> set (tag_keys response) \<longrightarrow> needs_image t)
     \<and> (''SEARCH_VIDEO'' \<notin> set (tag_keys response) \<longrightarrow> needs_video t)
     \<and> (''CONTENT_VIOLATION'' \<notin> set (tag_keys response) \<longrightarrow> \<not> content_violation t)
     \<and> (''MATH'' \<notin> set (tag_keys response) \<longrightarrow> \<not> has_math t)
     \<and> (\<exists>d'. dict (filter (\<lambda>kv. hd kv \<in> set recognized_keys)
                      (tag_items (strip_quotes response))) Map.empty = Inr d'
             \<and> query_tags d' = t)"
proof -
  let ?items = "tag_items (strip_quotes response)"
  obtain d where d: "dict ?items Map.empty = Inr d"
  proof (cases "tags_dict response")
    case (Inl err)
    then have "parse_tags response = Inl ValueError"
      by (simp add: parse_tags_def tags_dict_def dict_Inl)
    with assms show ?thesis using parse_tags_fails_iff by blast
  next
    case (Inr d)
    then show ?thesis using that by (simp add: tags_dict_def)
  qed
  then have p: "parse_tags response = Inr (query_tags d)"
    by (simp add: parse_tags_def tags_dict_def)
  have yes: "strip ''YES'' = ''YES''" and no: "strip ''NO'' \<noteq> ''YES''"
    by (simp_all add: strip_def strip_chars_def whitespace_def)
  have absent: "get d k dflt = dflt" if "k \<notin> set (tag_keys response)" for k dflt
    using dict_absent_key [OF d, of k] that by (simp add: tag_keys_def get_def)
  from dict_filter_recognized [OF d] obtain d' where
    d': "dict (filter (\<lambda>kv. hd kv \<in> set recognized_keys) ?items) Map.empty = Inr d'"
        "\<forall>k\<in>set recognized_keys. d' k = d k"
    by blast
  from d'(2) have "query_tags d' = query_tags d" by (rule query_tags_cong)
  with p d'(1) show ?thesis
    by (auto simp: query_tags_def absent yes no)
qed

theorem absent_keys_take_defaults_witness:
  "key_value_pairs ''SEARCH_IMAGE:NO, FOO:BAR''
   \<and> (\<exists>t. parse_tags ''SEARCH_IMAGE:NO, FOO:BAR'' = Inr t
        \<and> needs_search t \<and> \<not> needs_image t \<and> needs_video t
        \<and> \<not> content_violation t \<and> \<not> has_math t)"
proof -
  have h: "key_value_pairs ''SEARCH_IMAGE:NO, FOO:BAR''" by code_simp
  have k: "tag_keys ''SEARCH_IMAGE:NO, FOO:BAR'' = [''SEARCH_IMAGE'', ''FOO'']" by code_simp
  have v: "parse_tags ''SEARCH_IMAGE:NO, FOO:BAR''
             = Inr \<lparr> needs_search = True, needs_image = False, needs_video = True,
                     content_violation = False, has_math = False \<rparr>"
    by code_simp
  from absent_keys_take_defaults [OF h] h show ?thesis
    by (auto simp: k v)
qed

text \<open>
  C6. A classification response that is not a comma-separated list of KEY:VALUE items
  makes the parse fail with \<open>ValueError\<close>. The run then ends with an exception before
  anything is emitted, searched or saved; that exception is the \<open>ValueError\<close> when the
  rewrite request returned.
\<close>

theorem unparseable_classification_aborts:
  assumes "load_chat_history e tid = Inr prior"
    and "classify_completion e
           (classification_prompt e (chat_history_to_string e (prior @ [(''user'', msg)])) msg)
           = Inr cls"
    and "\<not> key_value_pairs cls"
  shows "parse_tags cls = Inl ValueError
     \<and> outcome (run e tid msg n) \<noteq> None
     \<and> trace (run e tid msg n) = [] \<and> saves (trace (run e tid msg n)) = []
     \<and> searches (run e tid msg n) = [] \<and> fetched (run e tid msg n) = []
     \<and> generated (run e tid msg n) = n
     \<and> ((\<exists>out. rewrite_completion e
                  (search_prompt e (chat_history_to_string e (prior @ [(''user'', msg)])) msg)
                  = Inr out) \<longrightarrow>
          outcome (run e tid msg n) = Some ValueError)"
proof -
  have p: "parse_tags cls = Inl ValueError"
    using assms(3) parse_tags_fails_iff by blast
  let ?rw = "rewrite_completion e
               (search_prompt e (chat_history_to_string e (prior @ [(''user'', msg)])) msg)"
  have q: "process_user_query e (prior @ [(''user'', msg)])
             = (case ?rw of Inl err \<Rightarrow> Inl err | Inr out \<Rightarrow> Inl ValueError)"
    unfolding process_user_query_unfold using assms(2) p by (simp split: sum.splits)
  then obtain err where err: "process_user_query e (prior @ [(''user'', msg)]) = Inl err"
    "(\<exists>out. ?rw = Inr out) \<longrightarrow> err = ValueError"
    by (cases ?rw) auto
  from run_query_fails [OF assms(1) err(1)] err(2) p show ?thesis
    by (simp add: saves_def)
qed

theorem unparseable_classification_aborts_witness:
  "load_chat_history (sample_env ''mars'' ''SEARCH_IMAGE NO'' no_media [] 0) ''t1''
     = Inr [(''user'', ''How far is Mars?'')]
   \<and> \<not> key_value_pairs ''SEARCH_IMAGE NO''
   \<and> run (sample_env ''mars'' ''SEARCH_IMAGE NO'' no_media [] 0) ''t1'' ''Is it larger?'' 0
       = \<lparr> trace = [], searches = [], fetched = [], outcome = Some ValueError, generated = 0 \<rparr>"
proof -
  let ?e = "sample_env ''mars'' ''SEARCH_IMAGE NO'' no_media [] 0"
  have l: "load_chat_history ?e ''t1'' = Inr [(''user'', ''How far is Mars?'')]"
    by (simp add: sample_env_def)
  have c: "classify_completion ?e
             (classification_prompt ?e
                (chat_history_to_string ?e
                   ([(''user'', ''How far is Mars?'')] @ [(''user'', ''Is it larger?'')]))
                ''Is it larger?'') = Inr ''SEARCH_IMAGE NO''"
    by (simp add: sample_env_def)
  have r: "\<exists>out. rewrite_completion ?e
             (search_prompt ?e
                (chat_history_to_string ?e
                   ([(''user'', ''How far is Mars?'')] @ [(''user'', ''Is it larger?'')]))
                ''Is it larger?'') = Inr out"
    by (simp add: sample_env_def)
  have k: "\<not> key_value_pairs ''SEARCH_IMAGE NO''" by code_simp
  from unparseable_classification_aborts [OF l c k, where n = 0] r l k show ?thesis
    by (cases "run ?e ''t1'' ''Is it larger?'' 0") simp
qed

section \<open>The rewritten query\<close>

text \<open>
  C5, as stated: the search query is the rewrite output with surrounding whitespace
  trimmed and surrounding quotes stripped. The code does not trim whitespace: for the
  rewrite output \<open>" mars"\<close> (a leading space, no quotes) the search query is that
  output unchanged, while trimming would give \<open>mars\<close>.
\<close>

theorem search_query_trimmed_counterexample:
  "searches (run (sample_env '' mars'' ''SEARCH_IMAGE:NO,SEARCH_VIDEO:NO'' no_media
                    [Some ''far''] 0) ''t1'' ''Is it larger?'' 0)
     = [('' mars'', [General])]
   \<and> trimmed_unquoted '' mars'' = ''mars''"
  by code_simp

text \<open>
  C5, amended: every search call of a run uses the rewrite output with the leading and
  trailing double quotes removed and then the leading and trailing single quotes
  removed, and nothing else changed; whitespace is not trimmed. A run that returns has
  made at least one search call.
\<close>

theorem search_query_is_quote_stripped_rewrite:
  assumes "load_chat_history e tid = Inr prior"
    and "rewrite_completion e
           (search_prompt e (chat_history_to_string e (prior @ [(''user'', msg)])) msg)
           = Inr out"
  shows "(\<forall>call\<in>set (searches (run e tid msg n)).
            fst call = strip_chars [CHR 0x27] (strip_chars [CHR 0x22] out))
     \<and> (outcome (run e tid msg n) = None \<longrightarrow> searches (run e tid msg n) \<noteq> [])
     \<and> (\<exists>pre suf. out = pre @ strip_chars [CHR 0x27] (strip_chars [CHR 0x22] out) @ suf
            \<and> set pre \<subseteq> {CHR 0x22, CHR 0x27} \<and> set suf \<subseteq> {CHR 0x22, CHR 0x27})"
proof -
  let ?q = "strip_chars [CHR 0x27] (strip_chars [CHR 0x22] out)"
  have sq: "search_query eq = ?q"
    if "process_user_query e (prior @ [(''user'', msg)]) = Inr eq" for eq
    using process_user_query_Inr [OF that] assms(2) by (auto simp: strip_quotes_def)
  have calls: "(\<forall>call\<in>set (searches (run e tid msg n)). fst call = ?q)
     \<and> (outcome (run e tid msg n) = None \<longrightarrow> searches (run e tid msg n) \<noteq> [])"
  proof (cases rule: run_cases [where e = e and tid = tid and msg = msg])
    case (load_fails err)
    then show ?thesis using assms(1) by simp
  next
    case (query_fails prior' err)
    then show ?thesis using assms(1) by (simp add: run_query_fails)
  next
    case (search_fails prior' eq err)
    then show ?thesis using assms(1) sq [of eq] by (simp add: run_search_fails)
  next
    case (media_search_fails prior' eq sr err)
    then show ?thesis using assms(1) sq [of eq] by (simp add: run_media_search_fails)
  next
    case (answer_fails prior' eq sr mr evs err)
    then show ?thesis using assms(1) sq [of eq] by (simp add: run_answer_fails)
  next
    case (answered prior' eq sr mr evs ans)
    then show ?thesis using assms(1) sq [of eq] by (simp add: run_answered)
  qed
  obtain p1 s1 where 1: "out = p1 @ strip_chars [CHR 0x22] out @ s1"
    "set p1 \<subseteq> set [CHR 0x22]" "set s1 \<subseteq> set [CHR 0x22]"
    using strip_chars_verbatim [of out "[CHR 0x22]"] by blast
  obtain p2 s2 where 2: "strip_chars [CHR 0x22] out = p2 @ ?q @ s2"
    "set p2 \<subseteq> set [CHR 0x27]" "set s2 \<subseteq> set [CHR 0x27]"
    using strip_chars_verbatim [of "strip_chars [CHR 0x22] out" "[CHR 0x27]"] by blast
  have "out = (p1 @ p2) @ ?q @ (s2 @ s1)"
    using 1(1) 2(1) by (metis append.assoc)
  moreover have "set (p1 @ p2) \<subseteq> {CHR 0x22, CHR 0x27}" using 1(2) 2(2) by auto
  moreover have "set (s2 @ s1) \<subseteq> {CHR 0x22, CHR 0x27}" using 1(3) 2(3) by auto
  ultimately have "\<exists>pre suf. out = pre @ ?q @ suf
            \<and> set pre \<subseteq> {CHR 0x22, CHR 0x27} \<and> set suf \<subseteq> {CHR 0x22, CHR 0x27}"
    by blast
  with calls show ?thesis by blast
qed

theorem search_query_is_quote_stripped_rewrite_witness:
  "load_chat_history sample_run_env ''t1'' = Inr [(''user'', ''How far is Mars?'')]
   \<and> outcome (run sample_run_env ''t1'' ''Is it larger?'' 0) = None
   \<and> searches (run sample_run_env ''t1'' ''Is it larger?'' 0) \<noteq> []
   \<and> map fst (searches (run sample_run_env ''t1'' ''Is it larger?'' 0))
       = [''mars distance'', ''mars distance'']"
proof -
  let ?out = "CHR 0x22 # ''mars distance'' @ [CHR 0x22]"
  have l: "load_chat_history sample_run_env ''t1'' = Inr [(''user'', ''How far is Mars?'')]"
    by (simp add: sample_run_env_def sample_env_def)
  have r: "rewrite_completion sample_run_env
             (search_prompt sample_run_env
                (chat_history_to_string sample_run_env
                   ([(''user'', ''How far is Mars?'')] @ [(''user'', ''Is it larger?'')]))
                ''Is it larger?'') = Inr ?out"
    by (simp add: sample_run_env_def sample_env_def)
  have ok: "outcome (run sample_run_env ''t1'' ''Is it larger?'' 0) = None" by code_simp
  have s: "strip_chars [CHR 0x27] (strip_chars [CHR 0x22] ?out) = ''mars distance''"
    by code_simp
  have n: "length (searches (run sample_run_env ''t1'' ''Is it larger?'' 0)) = 2" by code_simp
  from search_query_is_quote_stripped_rewrite [OF l r]
  have all: "\<forall>call\<in>set (searches (run sample_run_env ''t1'' ''Is it larger?'' 0)).
               fst call = ''mars distance''"
    and ne: "searches (run sample_run_env ''t1'' ''Is it larger?'' 0) \<noteq> []"
    unfolding s using ok by blast+
  from all have "map fst (searches (run sample_run_env ''t1'' ''Is it larger?'' 0))
               = replicate (length (searches (run sample_run_env ''t1'' ''Is it larger?'' 0)))
                   ''mars distance''"
    by (rule map_constant)
  with n l ok ne show ?thesis by (simp add: numeral_2_eq_2)
qed

section \<open>The streamed answer\<close>

text \<open>
  C7, as stated: every streamed fragment is emitted as one answer event. The loop
  skips a chunk whose content is absent or empty: of the three fragments \<open>a\<close>, the
  empty string and \<open>b\<close>, two are emitted.
\<close>

theorem one_event_per_fragment_counterexample:
  "fst (gen_answer (sample_env ''mars'' ''MATH:NO'' no_media [Some ''a'', Some '''', Some ''b''] 0)
          [(''user'', ''How far is Mars?'')] [Some ''Mars is far.''])
     = [emit_answer ''a'', emit_answer ''b'']
   \<and> [emit_answer ''a'', emit_answer ''b''] \<noteq> map emit_answer [''a'', '''', ''b'']"
  by code_simp

text \<open>
  C7, amended: for every sequence of streamed fragments, each fragment that is not
  empty is emitted as an answer event as it arrives, one event for each, in arrival
  order, whether or not the stream fails afterwards; a chunk with no content or with
  empty content is neither accumulated nor emitted, so after every prefix of the
  stream the fragments emitted are the fragments accumulated. When the stream ends
  without an error, \<open>gen_answer\<close> returns the concatenation of all fragments in
  arrival order; when it ends with an error, \<open>gen_answer\<close> raises that error. The
  message list is not empty, as the request reads its last message.
\<close>

theorem gen_answer_streams_fragments:
  assumes "ms \<noteq> []"
    and "completion_stream e
           (answer_prompt e (chat_history_to_string e ms) (documents 0 pages) (now_isoformat e))
           (snd (last ms)) = (chunks, failure)"
  shows "fst (gen_answer e ms pages)
           = map emit_answer (filter (\<lambda>t. t \<noteq> '''') (map or_empty chunks))
     \<and> snd (gen_answer e ms pages)
           = (case failure of
                None \<Rightarrow> Inr (concat (map or_empty chunks))
              | Some err \<Rightarrow> Inl err)
     \<and> (\<forall>k. stream_loop (take k chunks) ([], [])
               = (filter (\<lambda>t. t \<noteq> '''') (map or_empty (take k chunks)),
                  map emit_answer (filter (\<lambda>t. t \<noteq> '''') (map or_empty (take k chunks)))))"
  using assms
  by (simp add: gen_answer_def Let_def stream_loop_eq concat_filter_nonempty
        split: option.splits)

theorem gen_answer_streams_fragments_witness:
  "completion_stream sample_run_env
     (answer_prompt sample_run_env
        (chat_history_to_string sample_run_env [(''user'', ''How far is Mars?'')])
        (documents 0 [Some ''Mars is far.'']) (now_isoformat sample_run_env))
     (snd (last [(''user'', ''How far is Mars?'')]))
     = ([Some ''171.7 '', None, Some '''', Some ''million mi''], None)
   \<and> gen_answer sample_run_env [(''user'', ''How far is Mars?'')] [Some ''Mars is far.'']
       = ([emit_answer ''171.7 '', emit_answer ''million mi''], Inr ''171.7 million mi'')
   \<and> stream_loop (take 2 [Some ''171.7 '', None, Some '''', Some ''million mi'']) ([], [])
       = ([''171.7 ''], [emit_answer ''171.7 ''])"
proof -
  have ne: "[(''user'', ''How far is Mars?'')] \<noteq> ([] :: message list)" by simp
  have h: "completion_stream sample_run_env
     (answer_prompt sample_run_env
        (chat_history_to_string sample_run_env [(''user'', ''How far is Mars?'')])
        (documents 0 [Some ''Mars is far.'']) (now_isoformat sample_run_env))
     (snd (last [(''user'', ''How far is Mars?'')]))
     = ([Some ''171.7 '', None, Some '''', Some ''million mi''], None)"
    by (simp add: sample_run_env_def sample_env_def)
  from gen_answer_streams_fragments [OF ne h]
  have a: "fst (gen_answer sample_run_env [(''user'', ''How far is Mars?'')] [Some ''Mars is far.''])
             = [emit_answer ''171.7 '', emit_answer ''million mi'']"
    and b: "snd (gen_answer sample_run_env [(''user'', ''How far is Mars?'')] [Some ''Mars is far.''])
             = Inr ''171.7 million mi''"
    and c: "\<And>k. stream_loop (take k [Some ''171.7 '', None, Some '''', Some ''million mi''])
                    ([], [])
               = (filter (\<lambda>t. t \<noteq> '''')
                    (map or_empty (take k [Some ''171.7 '', None, Some '''', Some ''million mi''])),
                  map emit_answer (filter (\<lambda>t. t \<noteq> '''')
                    (map or_empty (take k [Some ''171.7 '', None, Some '''', Some ''million mi'']))))"
    by (simp_all add: or_empty_def)
  have d: "take 2 [Some ''171.7 '', None, Some '''', Some ''million mi'']
             = [Some ''171.7 '', None]"
    by (simp add: numeral_2_eq_2)
  from a b have "gen_answer sample_run_env [(''user'', ''How far is Mars?'')] [Some ''Mars is far.'']
       = ([emit_answer ''171.7 '', emit_answer ''million mi''], Inr ''171.7 million mi'')"
    by (simp add: prod_eq_iff)
  with h c [of 2] show ?thesis
    unfolding d by (simp add: or_empty_def)
qed

section \<open>The events and the record of a run that returns\<close>

text \<open>
  C3, as stated: the payload of the medium-results event is empty if and only if
  neither \<open>needs_image\<close> nor \<open>needs_video\<close> was true. With \<open>needs_image\<close> true and a
  media search that finds nothing, the payload is empty all the same.
\<close>

theorem medium_results_empty_iff_counterexample:
  "parse_tags ''SEARCH_IMAGE:YES,SEARCH_VIDEO:NO''
     = Inr \<lparr> needs_search = True, needs_image = True, needs_video = False,
             content_violation = False, has_math = False \<rparr>
   \<and> outcome (run (sample_env ''mars'' ''SEARCH_IMAGE:YES,SEARCH_VIDEO:NO'' no_media
                     [Some ''far''] 0) ''t1'' ''Is it larger?'' 0) = None
   \<and> searches (run (sample_env ''mars'' ''SEARCH_IMAGE:YES,SEARCH_VIDEO:NO'' no_media
                      [Some ''far''] 0) ''t1'' ''Is it larger?'' 0)
       = [(''mars'', [General]), (''mars'', [Images])]
   \<and> medium_payloads
        (trace (run (sample_env ''mars'' ''SEARCH_IMAGE:YES,SEARCH_VIDEO:NO'' no_media
                       [Some ''far''] 0) ''t1'' ''Is it larger?'' 0)) = [[]]"
  by code_simp

text \<open>
  C3, amended: a run that returns emits one medium-results event. When neither
  \<open>needs_image\<close> nor \<open>needs_video\<close> is true in the classified tags, the second search
  call is not made and the payload is the empty list. When one of them is true, the
  second search is made for the categories wanted and the payload is the images and
  then the videos it returned, so it is empty exactly when that search returned
  neither.
\<close>

theorem medium_results_payload:
  assumes "outcome (run e tid msg n) = None"
  shows "\<exists>prior q t payload.
     load_chat_history e tid = Inr prior
   \<and> process_user_query e (prior @ [(''user'', msg)]) = Inr \<lparr> search_query = q, tags = Some t \<rparr>
   \<and> medium_payloads (trace (run e tid msg n)) = [payload]
   \<and> (\<not> needs_image t \<and> \<not> needs_video t \<longrightarrow>
         payload = [] \<and> searches (run e tid msg n) = [(q, [General])])
   \<and> (needs_image t \<or> needs_video t \<longrightarrow>
         (\<exists>mr. searxng_search_results_json e q
                   ((if needs_image t then [Images] else [])
                    @ (if needs_video t then [Videos] else [])) = Inr mr
              \<and> payload
                  = map (\<lambda>image. [(''url'', image_url image), (''image'', img_src image),
                                   (''medium'', ''image'')]) (images mr)
                    @ map (\<lambda>video. [(''url'', video_url video), (''medium'', ''video'')])
                        (videos mr)
              \<and> (payload = [] \<longleftrightarrow> images mr = [] \<and> videos mr = [])
              \<and> searches (run e tid msg n)
                  = [(q, [General]),
                     (q, (if needs_image t then [Images] else [])
                         @ (if needs_video t then [Videos] else []))]))"
proof -
  from run_success [OF assms]
  obtain prior out and t :: QueryTags and sr mr :: TopResults and parts rec where
    f: "load_chat_history e tid = Inr prior"
       "process_user_query e (prior @ [(''user'', msg)])
          = Inr \<lparr> search_query = strip_quotes out, tags = Some t \<rparr>"
       "if media_categories (Some t) = []
        then mr = \<lparr> general = [], images = [], videos = [] \<rparr>
        else searxng_search_results_json e (strip_quotes out) (media_categories (Some t))
               = Inr mr"
       "trace (run e tid msg n) =
          [emit_metadata (MetaData (has_math t)), emit_web_results (general sr)]
          @ map emit_answer (take (medium_slot e) parts) @ [emit_medium_results mr]
          @ map emit_answer (drop (medium_slot e) parts) @ [Save tid rec]"
       "searches (run e tid msg n) =
          (if media_categories (Some t) = [] then [(strip_quotes out, [General])]
           else [(strip_quotes out, [General]), (strip_quotes out, media_categories (Some t))])"
    by blast
  let ?payload = "map (\<lambda>image. [(''url'', image_url image), (''image'', img_src image),
                                   (''medium'', ''image'')]) (images mr)
                  @ map (\<lambda>video. [(''url'', video_url video), (''medium'', ''video'')])
                      (videos mr)"
  have p: "medium_payloads (trace (run e tid msg n)) = [?payload]"
    by (simp add: f(4))
  have cats: "media_categories (Some t)
                = (if needs_image t then [Images] else []) @ (if needs_video t then [Videos] else [])"
    by (simp add: media_categories_def)
  show ?thesis
  proof (cases "needs_image t \<or> needs_video t")
    case False
    then have "media_categories (Some t) = []" by (simp add: cats)
    with f(3,5) have "?payload = []" "searches (run e tid msg n) = [(strip_quotes out, [General])]"
      by simp_all
    with f(1,2) p False show ?thesis by force
  next
    case True
    then have ne: "media_categories (Some t) \<noteq> []" by (auto simp: cats)
    with f(3,5) have
      m: "searxng_search_results_json e (strip_quotes out) (media_categories (Some t)) = Inr mr"
      and s: "searches (run e tid msg n)
               = [(strip_quotes out, [General]), (strip_quotes out, media_categories (Some t))]"
      by simp_all
    have "?payload = [] \<longleftrightarrow> images mr = [] \<and> videos mr = []" by simp
    with f(1,2) p True m s show ?thesis unfolding cats by force
  qed
qed

theorem medium_results_payload_witness:
  "outcome (run sample_plain_env ''t1'' ''Is it larger?'' 0) = None
   \<and> (\<exists>prior q t payload.
        load_chat_history sample_plain_env ''t1'' = Inr prior
      \<and> process_user_query sample_plain_env (prior @ [(''user'', ''Is it larger?'')])
          = Inr \<lparr> search_query = q, tags = Some t \<rparr>
      \<and> \<not> needs_image t \<and> \<not> needs_video t
      \<and> medium_payloads (trace (run sample_plain_env ''t1'' ''Is it larger?'' 0)) = [payload]
      \<and> payload = []
      \<and> searches (run sample_plain_env ''t1'' ''Is it larger?'' 0) = [(q, [General])])"
proof -
  have ok: "outcome (run sample_plain_env ''t1'' ''Is it larger?'' 0) = None" by code_simp
  have l: "load_chat_history sample_plain_env ''t1'' = Inr [(''user'', ''How far is Mars?'')]"
    by (simp add: sample_plain_env_def sample_env_def)
  have q: "process_user_query sample_plain_env
             ([(''user'', ''How far is Mars?'')] @ [(''user'', ''Is it larger?'')])
           = Inr \<lparr> search_query = ''mars distance'',
                   tags = Some \<lparr> needs_search = True, needs_image = False, needs_video = False,
                                 content_violation = False, has_math = True \<rparr> \<rparr>"
    by code_simp
  from medium_results_payload [OF ok] obtain prior q' t payload where
    w: "load_chat_history sample_plain_env ''t1'' = Inr prior"
       "process_user_query sample_plain_env (prior @ [(''user'', ''Is it larger?'')])
          = Inr \<lparr> search_query = q', tags = Some t \<rparr>"
       "medium_payloads (trace (run sample_plain_env ''t1'' ''Is it larger?'' 0)) = [payload]"
       "\<not> needs_image t \<and> \<not> needs_video t \<longrightarrow>
          payload = [] \<and> searches (run sample_plain_env ''t1'' ''Is it larger?'' 0) = [(q', [General])]"
    by blast
  from w(1) l have "prior = [(''user'', ''How far is Mars?'')]" by simp
  with w(2) q have "\<not> needs_image t \<and> \<not> needs_video t" by auto
  with w ok show ?thesis by blast
qed

text \<open>
  C4. In a run that returns, the web-results event is emitted once, and no answer
  event comes before it in the trace.
\<close>

theorem web_results_before_answer:
  assumes "outcome (run e tid msg n) = None"
  shows "\<exists>pre payload post.
     trace (run e tid msg n) = pre @ [Emit (Web_results payload)] @ post
   \<and> answers pre = [] \<and> web_payloads pre = [] \<and> web_payloads post = []
   \<and> answers post = answers (trace (run e tid msg n))"
proof -
  from run_success [OF assms]
  obtain t :: QueryTags and sr mr :: TopResults and parts rec where
    tr: "trace (run e tid msg n) =
          [emit_metadata (MetaData (has_math t)), emit_web_results (general sr)]
          @ map emit_answer (take (medium_slot e) parts) @ [emit_medium_results mr]
          @ map emit_answer (drop (medium_slot e) parts) @ [Save tid rec]"
    by blast
  let ?pre = "[emit_metadata (MetaData (has_math t))]"
  let ?payload = "map (\<lambda>res. [(''url'', url res), (''title'', title res),
                               (''content'', content res)]) (general sr)"
  let ?post = "map emit_answer (take (medium_slot e) parts) @ [emit_medium_results mr]
          @ map emit_answer (drop (medium_slot e) parts) @ [Save tid rec]"
  have "trace (run e tid msg n) = ?pre @ [Emit (Web_results ?payload)] @ ?post"
    by (simp add: tr emit_web_results_def)
  moreover have "answers ?pre = []" "web_payloads ?pre = []" "web_payloads ?post = []"
    by simp_all
  moreover have "answers ?post = answers (trace (run e tid msg n))"
    by (simp add: tr)
  ultimately show ?thesis by blast
qed

theorem web_results_before_answer_witness:
  "outcome (run sample_run_env ''t1'' ''Is it larger?'' 0) = None
   \<and> answers (trace (run sample_run_env ''t1'' ''Is it larger?'' 0)) = [''171.7 '', ''million mi'']
   \<and> (\<exists>pre payload post.
        trace (run sample_run_env ''t1'' ''Is it larger?'' 0) = pre @ [Emit (Web_results payload)] @ post
      \<and> answers pre = [] \<and> web_payloads pre = [] \<and> web_payloads post = []
      \<and> answers post = [''171.7 '', ''million mi''])"
proof -
  have ok: "outcome (run sample_run_env ''t1'' ''Is it larger?'' 0) = None" by code_simp
  have a: "answers (trace (run sample_run_env ''t1'' ''Is it larger?'' 0))
             = [''171.7 '', ''million mi'']"
    by code_simp
  from web_results_before_answer [OF ok] ok a show ?thesis by simp
qed

text \<open>
  C8. A run that returns hands one record to the chat store, as the last effect of
  the run: every answer event and the medium-results event come before it. The record
  carries a new identifier, the thread id of the run, the images and then the videos
  of the media search (none when no media search was made), all results of the
  general search reduced to url, title and content, the message of the user as its
  query (not the rewritten search query), and the answer that \<open>gen_answer\<close> returned
  for the pages of the first five results, which is the concatenation of the answer
  fragments emitted. The identifier is the one the generator returns at this call;
  a generator that never returns a value twice gives no other call that value, so
  the record of a later run has another identifier.
\<close>

theorem record_saved_once_after_answer:
  assumes "outcome (run e tid msg n) = None" and "inj (uuid4 e)"
  shows "\<exists>prior q t sr mr parts pre rec.
     load_chat_history e tid = Inr prior
   \<and> process_user_query e (prior @ [(''user'', msg)]) = Inr \<lparr> search_query = q, tags = Some t \<rparr>
   \<and> searxng_search_results_json e q [General] = Inr sr
   \<and> (if \<not> needs_image t \<and> \<not> needs_video t
       then mr = \<lparr> general = [], images = [], videos = [] \<rparr>
       else searxng_search_results_json e q
              ((if needs_image t then [Images] else []) @ (if needs_video t then [Videos] else []))
            = Inr mr)
   \<and> gen_answer e (prior @ [(''user'', msg)]) (fetch_web_pages e (take 5 (general sr)))
       = (map emit_answer parts, Inr (concat parts))
   \<and> trace (run e tid msg n) = pre @ [Save tid rec]
   \<and> saves pre = [] \<and> saves (trace (run e tid msg n)) = [(tid, rec)]
   \<and> save_chat_history e tid rec = None
   \<and> answers pre = parts
   \<and> medium_payloads pre = [mediums rec]
   \<and> web_payloads pre = [web_results rec]
   \<and> rec = \<lparr> id' = uuid4 e n, thread_id = tid,
             mediums = map (\<lambda>image. [(''url'', image_url image), (''image'', img_src image),
                                      (''medium'', ''image'')]) (images mr)
                       @ map (\<lambda>video. [(''url'', video_url video), (''medium'', ''video'')])
                           (videos mr),
             web_results = map (\<lambda>res. [(''url'', url res), (''title'', title res),
                                         (''content'', content res)]) (general sr),
             query = msg, answer = concat parts, metadata = MetaData (has_math t) \<rparr>
   \<and> generated (run e tid msg n) = Suc n
   \<and> (\<forall>k. k \<noteq> n \<longrightarrow> uuid4 e k \<noteq> id' rec)
   \<and> (\<forall>tid' msg' rec'.
         (tid', rec') \<in> set (saves (trace (run e tid' msg' (generated (run e tid msg n))))) \<longrightarrow>
         id' rec' \<noteq> id' rec)"
proof -
  from run_success [OF assms(1)]
  obtain prior out and t :: QueryTags and sr mr :: TopResults and parts rec where
    f: "load_chat_history e tid = Inr prior"
       "process_user_query e (prior @ [(''user'', msg)])
          = Inr \<lparr> search_query = strip_quotes out, tags = Some t \<rparr>"
       "searxng_search_results_json e (strip_quotes out) [General] = Inr sr"
       "if media_categories (Some t) = []
        then mr = \<lparr> general = [], images = [], videos = [] \<rparr>
        else searxng_search_results_json e (strip_quotes out) (media_categories (Some t))
               = Inr mr"
       "gen_answer e (prior @ [(''user'', msg)]) (fetch_web_pages e (take 5 (general sr)))
          = (map emit_answer parts, Inr (concat parts))"
       "rec = \<lparr> id' = uuid4 e n, thread_id = tid,
             mediums = map (\<lambda>image. [(''url'', image_url image), (''image'', img_src image),
                                      (''medium'', ''image'')]) (images mr)
                       @ map (\<lambda>video. [(''url'', video_url video), (''medium'', ''video'')])
                           (videos mr),
             web_results = map (\<lambda>res. [(''url'', url res), (''title'', title res),
                                         (''content'', content res)]) (general sr),
             query = msg, answer = concat parts, metadata = MetaData (has_math t) \<rparr>"
       "save_chat_history e tid rec = None"
       "trace (run e tid msg n) =
          [emit_metadata (MetaData (has_math t)), emit_web_results (general sr)]
          @ map emit_answer (take (medium_slot e) parts) @ [emit_medium_results mr]
          @ map emit_answer (drop (medium_slot e) parts) @ [Save tid rec]"
       "generated (run e tid msg n) = Suc n"
    by blast
  let ?pre = "[emit_metadata (MetaData (has_math t)), emit_web_results (general sr)]
          @ map emit_answer (take (medium_slot e) parts) @ [emit_medium_results mr]
          @ map emit_answer (drop (medium_slot e) parts)"
  have cats: "media_categories (Some t)
                = (if needs_image t then [Images] else []) @ (if needs_video t then [Videos] else [])"
    by (simp add: media_categories_def)
  have media: "if \<not> needs_image t \<and> \<not> needs_video t
       then mr = \<lparr> general = [], images = [], videos = [] \<rparr>
       else searxng_search_results_json e (strip_quotes out)
              ((if needs_image t then [Images] else []) @ (if needs_video t then [Videos] else []))
            = Inr mr"
    using f(4) unfolding cats by (auto split: if_splits)
  have tr: "trace (run e tid msg n) = ?pre @ [Save tid rec]" by (simp add: f(8))
  have a: "answers ?pre = parts" by simp
  have s: "saves ?pre = []" by simp
  have s2: "saves (trace (run e tid msg n)) = [(tid, rec)]"
    unfolding tr using s by simp
  have m: "medium_payloads ?pre = [mediums rec]" by (simp add: f(6))
  have w: "web_payloads ?pre = [web_results rec]" by (simp add: f(6))
  have i: "id' rec = uuid4 e n" by (simp add: f(6))
  have fresh: "\<forall>k. k \<noteq> n \<longrightarrow> uuid4 e k \<noteq> id' rec"
    unfolding i using assms(2) by (auto dest: injD)
  have later: "\<forall>tid' msg' rec'.
         (tid', rec') \<in> set (saves (trace (run e tid' msg' (generated (run e tid msg n))))) \<longrightarrow>
         id' rec' \<noteq> id' rec"
  proof (intro allI impI)
    fix tid' msg' rec'
    assume "(tid', rec') \<in> set (saves (trace (run e tid' msg' (generated (run e tid msg n)))))"
    then have "id' rec' = uuid4 e (Suc n)"
      unfolding f(9) by (rule saved_identifier)
    with fresh show "id' rec' \<noteq> id' rec" by simp
  qed
  show ?thesis
    by (intro exI conjI)
       (rule f(1) f(2) f(3) media f(5) tr s s2 f(7) a m w f(6) f(9) fresh later)+
qed

theorem record_saved_once_after_answer_witness:
  "outcome (run sample_run_env ''t1'' ''Is it larger?'' 0) = None
   \<and> generated (run sample_run_env ''t1'' ''Is it larger?'' 0) = 1
   \<and> (\<exists>pre rec rec2.
        trace (run sample_run_env ''t1'' ''Is it larger?'' 0) = pre @ [Save ''t1'' rec]
      \<and> saves (trace (run sample_run_env ''t1'' ''Is it larger?'' 0)) = [(''t1'', rec)]
      \<and> id' rec = ''0b4e2c1a-'' \<and> thread_id rec = ''t1''
      \<and> query rec = ''Is it larger?''
      \<and> answer rec = ''171.7 million mi''
      \<and> answers pre = [''171.7 '', ''million mi'']
      \<and> medium_payloads pre = [mediums rec]
      \<and> length (mediums rec) = 2
      \<and> length (web_results rec) = 6
      \<and> saves (trace (run sample_run_env ''t2'' ''And Venus?'' 1)) = [(''t2'', rec2)]
      \<and> id' rec2 \<noteq> id' rec)"
proof -
  have ok: "outcome (run sample_run_env ''t1'' ''Is it larger?'' 0) = None" by code_simp
  have u: "uuid4 sample_run_env = (\<lambda>k. ''0b4e2c1a-'' @ replicate k CHR ''0'')"
    by (simp add: sample_run_env_def sample_env_def)
  have inj: "inj (uuid4 sample_run_env)"
    unfolding u by (rule injI) simp
  have a: "answers (trace (run sample_run_env ''t1'' ''Is it larger?'' 0))
             = [''171.7 '', ''million mi'']"
    by code_simp
  have l: "map (\<lambda>(t, r). (length (mediums r), length (web_results r)))
             (saves (trace (run sample_run_env ''t1'' ''Is it larger?'' 0))) = [(2, 6)]"
    by code_simp
  have k: "map fst (saves (trace (run sample_run_env ''t2'' ''And Venus?'' 1))) = [''t2'']"
    by code_simp
  then obtain rec2 where
    r2: "saves (trace (run sample_run_env ''t2'' ''And Venus?'' 1)) = [(''t2'', rec2)]"
    by auto
  from record_saved_once_after_answer [OF ok inj]
  obtain parts pre rec where
    w: "trace (run sample_run_env ''t1'' ''Is it larger?'' 0) = pre @ [Save ''t1'' rec]"
       "saves pre = []"
       "saves (trace (run sample_run_env ''t1'' ''Is it larger?'' 0)) = [(''t1'', rec)]"
       "answers pre = parts"
       "medium_payloads pre = [mediums rec]"
       "id' rec = uuid4 sample_run_env 0" "thread_id rec = ''t1''"
       "query rec = ''Is it larger?''" "answer rec = concat parts"
       "generated (run sample_run_env ''t1'' ''Is it larger?'' 0) = Suc 0"
       "\<forall>tid' msg' rec'.
         (tid', rec') \<in> set (saves (trace (run sample_run_env tid' msg'
                                       (generated (run sample_run_env ''t1'' ''Is it larger?'' 0)))))
           \<longrightarrow> id' rec' \<noteq> id' rec"
    by (elim exE conjE) simp
  from w(1,4) a have p: "parts = [''171.7 '', ''million mi'']" by simp
  from w(3) l have n: "length (mediums rec) = 2" "length (web_results rec) = 6" by simp_all
  from r2 have "(''t2'', rec2) \<in> set (saves (trace (run sample_run_env ''t2'' ''And Venus?'' 1)))"
    by simp
  with w(10,11) have d: "id' rec2 \<noteq> id' rec" by (metis One_nat_def)
  from w(6) have i: "id' rec = ''0b4e2c1a-''" by (simp add: u)
  have A: "answers pre = [''171.7 '', ''million mi'']" using w(4) p by simp
  have B: "answer rec = ''171.7 million mi''" using w(9) p by simp
  have G: "generated (run sample_run_env ''t1'' ''Is it larger?'' 0) = 1" using w(10) by simp
  from ok G w(1,3,5,7,8) A B n i r2 d show ?thesis by blast
qed

text \<open>
  C9. In a run that returns, the one metadata event and the metadata of the record
  saved carry the same \<open>has_math\<close> value, that of the classified tags.
\<close>

theorem metadata_event_agrees_with_record:
  assumes "outcome (run e tid msg n) = None"
  shows "\<exists>prior q t rec.
     load_chat_history e tid = Inr prior
   \<and> process_user_query e (prior @ [(''user'', msg)]) = Inr \<lparr> search_query = q, tags = Some t \<rparr>
   \<and> metadata_payloads (trace (run e tid msg n)) = [MetaData (has_math t)]
   \<and> saves (trace (run e tid msg n)) = [(tid, rec)]
   \<and> metadata rec = MetaData (has_math t)"
proof -
  from run_success [OF assms]
  obtain prior out and t :: QueryTags and sr mr :: TopResults and parts rec where
    f: "load_chat_history e tid = Inr prior"
       "process_user_query e (prior @ [(''user'', msg)])
          = Inr \<lparr> search_query = strip_quotes out, tags = Some t \<rparr>"
       "rec = \<lparr> id' = uuid4 e n, thread_id = tid,
             mediums = map (\<lambda>image. [(''url'', image_url image), (''image'', img_src image),
                                      (''medium'', ''image'')]) (images mr)
                       @ map (\<lambda>video. [(''url'', video_url video), (''medium'', ''video'')])
                           (videos mr),
             web_results = map (\<lambda>res. [(''url'', url res), (''title'', title res),
                                         (''content'', content res)]) (general sr),
             query = msg, answer = concat parts, metadata = MetaData (has_math t) \<rparr>"
       "trace (run e tid msg n) =
          [emit_metadata (MetaData (has_math t)), emit_web_results (general sr)]
          @ map emit_answer (take (medium_slot e) parts) @ [emit_medium_results mr]
          @ map emit_answer (drop (medium_slot e) parts) @ [Save tid rec]"
    by blast
  have "metadata_payloads (trace (run e tid msg n)) = [MetaData (has_math t)]"
    by (simp add: f(4))
  moreover have "saves (trace (run e tid msg n)) = [(tid, rec)]"
    by (simp add: f(4))
  moreover have "metadata rec = MetaData (has_math t)"
    by (simp add: f(3))
  ultimately show ?thesis using f(1,2) by blast
qed

theorem metadata_event_agrees_with_record_witness:
  "outcome (run sample_run_env ''t1'' ''Is it larger?'' 0) = None
   \<and> metadata_payloads (trace (run sample_run_env ''t1'' ''Is it larger?'' 0)) = [MetaData True]
   \<and> (\<exists>rec. saves (trace (run sample_run_env ''t1'' ''Is it larger?'' 0)) = [(''t1'', rec)]
          \<and> metadata rec = MetaData True)"
proof -
  have ok: "outcome (run sample_run_env ''t1'' ''Is it larger?'' 0) = None" by code_simp
  have m: "metadata_payloads (trace (run sample_run_env ''t1'' ''Is it larger?'' 0))
             = [MetaData True]"
    by code_simp
  from metadata_event_agrees_with_record [OF ok] obtain t :: QueryTags and rec where
    w: "metadata_payloads (trace (run sample_run_env ''t1'' ''Is it larger?'' 0))
          = [MetaData (has_math t)]"
       "saves (trace (run sample_run_env ''t1'' ''Is it larger?'' 0)) = [(''t1'', rec)]"
       "metadata rec = MetaData (has_math t)"
    by blast
  from w(1) m have "has_math t" by simp
  with w ok m show ?thesis by auto
qed

text \<open>
  C10. In a run that returns, with N results of the general search, the payload of
  the web-results event and the \<open>web_results\<close> of the record saved are the same list:
  all N results in the order of the search, each reduced to the keys \<open>url\<close>, \<open>title\<close>
  and \<open>content\<close>. The pages requested are those of the first min(5, N) results.
\<close>

theorem web_results_complete_and_trimmed:
  assumes "outcome (run e tid msg n) = None"
  shows "\<exists>prior q tgs sr rec.
     load_chat_history e tid = Inr prior
   \<and> process_user_query e (prior @ [(''user'', msg)]) = Inr \<lparr> search_query = q, tags = tgs \<rparr>
   \<and> searxng_search_results_json e q [General] = Inr sr
   \<and> web_payloads (trace (run e tid msg n))
       = [map (\<lambda>res. [(''url'', url res), (''title'', title res), (''content'', content res)])
            (general sr)]
   \<and> saves (trace (run e tid msg n)) = [(tid, rec)]
   \<and> web_results rec
       = map (\<lambda>res. [(''url'', url res), (''title'', title res), (''content'', content res)])
           (general sr)
   \<and> length (web_results rec) = length (general sr)
   \<and> (\<forall>d\<in>set (web_results rec). map fst d = [''url'', ''title'', ''content''])
   \<and> fetched (run e tid msg n) = map url (take (min 5 (length (general sr))) (general sr))
   \<and> length (fetched (run e tid msg n)) = min 5 (length (general sr))"
proof -
  from run_success [OF assms]
  obtain prior out and t :: QueryTags and sr mr :: TopResults and parts rec where
    f: "load_chat_history e tid = Inr prior"
       "process_user_query e (prior @ [(''user'', msg)])
          = Inr \<lparr> search_query = strip_quotes out, tags = Some t \<rparr>"
       "searxng_search_results_json e (strip_quotes out) [General] = Inr sr"
       "rec = \<lparr> id' = uuid4 e n, thread_id = tid,
             mediums = map (\<lambda>image. [(''url'', image_url image), (''image'', img_src image),
                                      (''medium'', ''image'')]) (images mr)
                       @ map (\<lambda>video. [(''url'', video_url video), (''medium'', ''video'')])
                           (videos mr),
             web_results = map (\<lambda>res. [(''url'', url res), (''title'', title res),
                                         (''content'', content res)]) (general sr),
             query = msg, answer = concat parts, metadata = MetaData (has_math t) \<rparr>"
       "trace (run e tid msg n) =
          [emit_metadata (MetaData (has_math t)), emit_web_results (general sr)]
          @ map emit_answer (take (medium_slot e) parts) @ [emit_medium_results mr]
          @ map emit_answer (drop (medium_slot e) parts) @ [Save tid rec]"
       "fetched (run e tid msg n) = map url (take 5 (general sr))"
    by blast
  let ?trim = "\<lambda>res. [(''url'', url res), (''title'', title res), (''content'', content res)]"
  have 1: "web_payloads (trace (run e tid msg n)) = [map ?trim (general sr)]"
    by (simp add: f(5))
  have 2: "saves (trace (run e tid msg n)) = [(tid, rec)]"
    by (simp add: f(5))
  have 3: "web_results rec = map ?trim (general sr)"
    by (simp add: f(4))
  have 4: "length (web_results rec) = length (general sr)"
    "\<forall>d\<in>set (web_results rec). map fst d = [''url'', ''title'', ''content'']"
    unfolding 3 by auto
  have 5: "fetched (run e tid msg n) = map url (take (min 5 (length (general sr))) (general sr))"
    "length (fetched (run e tid msg n)) = min 5 (length (general sr))"
    by (simp_all add: f(6) min_def)
  from f(1-3) 1 2 3 4 5 show ?thesis by blast
qed

theorem web_results_complete_and_trimmed_witness:
  "outcome (run sample_run_env ''t1'' ''Is it larger?'' 0) = None
   \<and> length (fetched (run sample_run_env ''t1'' ''Is it larger?'' 0)) = 5
   \<and> (\<exists>rec payload.
        saves (trace (run sample_run_env ''t1'' ''Is it larger?'' 0)) = [(''t1'', rec)]
      \<and> web_payloads (trace (run sample_run_env ''t1'' ''Is it larger?'' 0)) = [payload]
      \<and> web_results rec = payload \<and> length payload = 6
      \<and> map (map fst) (web_results rec) = replicate 6 [''url'', ''title'', ''content''])"
proof -
  have ok: "outcome (run sample_run_env ''t1'' ''Is it larger?'' 0) = None" by code_simp
  have n: "length (fetched (run sample_run_env ''t1'' ''Is it larger?'' 0)) = 5" by code_simp
  have p: "length (hd (web_payloads (trace (run sample_run_env ''t1'' ''Is it larger?'' 0)))) = 6"
    by code_simp
  from web_results_complete_and_trimmed [OF ok]
  obtain sr :: TopResults and rec where
    w: "web_payloads (trace (run sample_run_env ''t1'' ''Is it larger?'' 0))
          = [map (\<lambda>res. [(''url'', url res), (''title'', title res), (''content'', content res)])
               (general sr)]"
       "saves (trace (run sample_run_env ''t1'' ''Is it larger?'' 0)) = [(''t1'', rec)]"
       "web_results rec
          = map (\<lambda>res. [(''url'', url res), (''title'', title res), (''content'', content res)])
              (general sr)"
       "\<forall>d\<in>set (web_results rec). map fst d = [''url'', ''title'', ''content'']"
    by blast
  from p w(1) have len: "length (general sr) = 6" by simp
  from w(4) have "map (map fst) (web_results rec)
                    = replicate (length (web_results rec)) [''url'', ''title'', ''content'']"
    by (rule map_constant)
  with len w(1-3) ok n show ?thesis by simp
qed

end
